theory Spec2Isabelle
  imports Complex_Main "HOL-Library.Log_Nat"
begin

section \<open>JavaScript values\<close>

subsection \<open>Numbers\<close>

text \<open>
  A TypeScript \<open>number\<close> is an IEEE-754 double: a finite value, which is a rational
  \<open>m * 2 ^ e\<close> with \<open>\<bar>m\<bar> < 2 ^ 53\<close> and \<open>-1074 \<le> e \<le> 971\<close>, or one of the three
  special values. The sum, product and quotient of two finite values are the exact results
  rounded to the nearest double, a tie to the even mantissa, and to an infinity beyond the
  largest double. Only the sign of zero is left out.
\<close>

datatype number = Fin rat | PosInfinity | NegInfinity | NaN

text \<open>\<open>2 ^ k\<close> for an integer \<open>k\<close>, and the largest double.\<close>

definition pow2 :: "int \<Rightarrow> rat" where
  "pow2 k = (if 0 \<le> k then 2 ^ nat k else 1 / 2 ^ nat (- k))"

definition max_double :: rat where
  "max_double = (2 ^ 53 - 1) * 2 ^ 971"

text \<open>
  The binary exponent of a positive rational \<open>q\<close>, the \<open>k\<close> with
  \<open>2 ^ k \<le> q < 2 ^ (k + 1)\<close>: the difference of the bit lengths of numerator and
  denominator, or one less.
\<close>

definition exponent :: "rat \<Rightarrow> int" where
  "exponent q =
     (let (n, d) = quotient_of q; k = bitlen n - bitlen d
      in if pow2 k \<le> q then k else k - 1)"

definition round_half_even :: "rat \<Rightarrow> int" where
  "round_half_even x =
     (let f = \<lfloor>x\<rfloor>; r = x - of_int f
      in if r < 1 / 2 then f else if 1 / 2 < r then f + 1 else if even f then f else f + 1)"

text \<open>
  Rounding to the nearest double: the mantissa is the quotient by the unit in the last
  place, rounded to an integer; the unit is \<open>2 ^ (k - 52)\<close> for a normal value and
  \<open>2 ^ (-1074)\<close> for a subnormal one. A result of \<open>2 ^ 1024\<close> or more is an infinity.
\<close>

definition round_double :: "rat \<Rightarrow> number" where
  "round_double q =
     (if q = 0 then Fin 0
      else let e = max (exponent \<bar>q\<bar> - 52) (- 1074);
               m = round_half_even (\<bar>q\<bar> / pow2 e)
           in if 971 < e \<or> (e = 971 \<and> m = 2 ^ 53)
              then (if 0 < q then PosInfinity else NegInfinity)
              else Fin (sgn q * of_int m * pow2 e))"

fun Number_isFinite :: "number \<Rightarrow> bool" where
  "Number_isFinite (Fin q) = True"
| "Number_isFinite x = False"

fun Number_isInteger :: "number \<Rightarrow> bool" where
  "Number_isInteger (Fin q) = (of_int \<lfloor>q\<rfloor> = q)"
| "Number_isInteger x = False"

text \<open>The comparison \<open>x < y\<close>: every comparison with \<open>NaN\<close> is false.\<close>

fun num_lt :: "number \<Rightarrow> number \<Rightarrow> bool" where
  "num_lt (Fin a) (Fin b) = (a < b)"
| "num_lt NaN y = False"
| "num_lt x NaN = False"
| "num_lt x NegInfinity = False"
| "num_lt PosInfinity y = False"
| "num_lt x y = True"

fun num_neg :: "number \<Rightarrow> number" where
  "num_neg (Fin a) = Fin (- a)"
| "num_neg PosInfinity = NegInfinity"
| "num_neg NegInfinity = PosInfinity"
| "num_neg NaN = NaN"

fun num_add :: "number \<Rightarrow> number \<Rightarrow> number" where
  "num_add (Fin a) (Fin b) = round_double (a + b)"
| "num_add NaN y = NaN"
| "num_add x NaN = NaN"
| "num_add PosInfinity NegInfinity = NaN"
| "num_add NegInfinity PosInfinity = NaN"
| "num_add (Fin a) y = y"
| "num_add x y = x"

fun num_mul :: "number \<Rightarrow> number \<Rightarrow> number" where
  "num_mul (Fin a) (Fin b) = round_double (a * b)"
| "num_mul NaN y = NaN"
| "num_mul x NaN = NaN"
| "num_mul (Fin a) y = (if a = 0 then NaN else if 0 < a then y else num_neg y)"
| "num_mul x (Fin b) = (if b = 0 then NaN else if 0 < b then x else num_neg x)"
| "num_mul PosInfinity y = y"
| "num_mul NegInfinity y = num_neg y"

fun num_div :: "number \<Rightarrow> number \<Rightarrow> number" where
  "num_div (Fin a) (Fin b) =
     (if b = 0 then (if a = 0 then NaN else if 0 < a then PosInfinity else NegInfinity)
      else round_double (a / b))"
| "num_div NaN y = NaN"
| "num_div x NaN = NaN"
| "num_div (Fin a) y = Fin 0"
| "num_div x (Fin b) = (if b < 0 then num_neg x else x)"
| "num_div x y = NaN"

text \<open>
  \<open>Math.round\<close> rounds to the nearest integer, a tie towards plus infinity; the result
  is a double whenever the argument is one.
\<close>

fun Math_round :: "number \<Rightarrow> number" where
  "Math_round (Fin q) = Fin (of_int \<lfloor>q + 1 / 2\<rfloor>)"
| "Math_round x = x"

subsection \<open>Strings\<close>

text \<open>
  A string is a list of characters, each standing for one code unit in the Latin-1 range.
  \<open>is_space\<close> is the class \<open>\s\<close> of a regular expression, which is also what
  \<open>trim\<close> strips: tab, line feed, vertical tab, form feed, carriage return, space and the
  no-break space.
\<close>

definition is_space :: "char \<Rightarrow> bool" where
  "is_space c = (of_char c \<in> {9, 10, 11, 12, 13, 32, 160 :: nat})"

definition trim :: "string \<Rightarrow> string" where
  "trim s = rev (dropWhile is_space (rev (dropWhile is_space s)))"

definition lower_char :: "char \<Rightarrow> char" where
  "lower_char c =
     (let n = (of_char c :: nat)
      in if (65 \<le> n \<and> n \<le> 90) \<or> (192 \<le> n \<and> n \<le> 222 \<and> n \<noteq> 215)
         then char_of (n + 32) else c)"

definition toLowerCase :: "string \<Rightarrow> string" where
  "toLowerCase s = map lower_char s"

text \<open>\<open>xs.join(sep)\<close> on an array of strings.\<close>

fun join :: "string \<Rightarrow> string list \<Rightarrow> string" where
  "join sep [] = []"
| "join sep [x] = x"
| "join sep (x # y # ys) = x @ sep @ join sep (y # ys)"

section \<open>The error taxonomy\<close>

text \<open>
  The \<open>value?: unknown\<close> of a validation failure and the values of a context record are
  numbers or strings in this code.
\<close>

datatype jsvalue = VNum number | VStr string

datatype ValidationFailure = Failure string string "jsvalue option"

text \<open>
  The five kinds that extend \<open>DomainError\<close>, with the constructor arguments each one keeps,
  and JavaScript's built-in \<open>Error\<close>, which is none of them. The timestamp and the stack
  trace of an error are left out.
\<close>

datatype error =
    ValidationError string "ValidationFailure list"
  | InvalidStateError string string string "string list option"
  | BusinessRuleViolationError string string "(string \<times> jsvalue) list"
  | NotFoundError string string
  | ConflictError string string "(string \<times> jsvalue) list"
  | Error string

datatype kind = KValidation | KInvalidState | KBusinessRuleViolation | KNotFound | KConflict

fun kind_of :: "error \<Rightarrow> kind option" where
  "kind_of (ValidationError entityName failures) = Some KValidation"
| "kind_of (InvalidStateError entityName currentState attemptedAction allowedStates) =
     Some KInvalidState"
| "kind_of (BusinessRuleViolationError ruleName msg ctx) = Some KBusinessRuleViolation"
| "kind_of (NotFoundError entityName entityId) = Some KNotFound"
| "kind_of (ConflictError entityName conflictReason ctx) = Some KConflict"
| "kind_of (Error msg) = None"

definition ValidationError_single ::
  "string \<Rightarrow> string \<Rightarrow> string \<Rightarrow> jsvalue option \<Rightarrow> error" where
  "ValidationError_single entityName fld msg v = ValidationError entityName [Failure fld msg v]"

fun failure_text :: "ValidationFailure \<Rightarrow> string" where
  "failure_text (Failure fld msg v) = fld @ '': '' @ msg"

text \<open>The message each constructor passes to the base class.\<close>

fun message :: "error \<Rightarrow> string" where
  "message (ValidationError entityName failures) =
     ''Validation failed for '' @ entityName @ '': '' @ join ''; '' (map failure_text failures)"
| "message (InvalidStateError entityName currentState attemptedAction allowedStates) =
     (case allowedStates of
        Some states \<Rightarrow>
          ''Cannot '' @ attemptedAction @ '' '' @ entityName @ '' in state '' @ [CHR 0x27]
            @ currentState @ [CHR 0x27] @ ''. Allowed states: '' @ join '', '' states
      | None \<Rightarrow>
          ''Cannot '' @ attemptedAction @ '' '' @ entityName @ '' in state '' @ [CHR 0x27]
            @ currentState @ [CHR 0x27])"
| "message (BusinessRuleViolationError ruleName msg ctx) =
     ''Business rule '' @ [CHR 0x27] @ ruleName @ [CHR 0x27] @ '' violated: '' @ msg"
| "message (NotFoundError entityName entityId) =
     entityName @ '' with id '' @ [CHR 0x27] @ entityId @ [CHR 0x27] @ '' not found''"
| "message (ConflictError entityName conflictReason ctx) =
     entityName @ '' conflict: '' @ conflictReason"
| "message (Error msg) = msg"

section \<open>Value objects\<close>

subsection \<open>Currency and Price\<close>

datatype Currency = USD | EUR | GBP | JPY

fun currency_str :: "Currency \<Rightarrow> string" where
  "currency_str USD = ''USD''"
| "currency_str EUR = ''EUR''"
| "currency_str GBP = ''GBP''"
| "currency_str JPY = ''JPY''"

definition VALID_CURRENCIES :: "string list" where
  "VALID_CURRENCIES = [''USD'', ''EUR'', ''GBP'', ''JPY'']"

definition isCurrency :: "string \<Rightarrow> bool" where
  "isCurrency v = (v \<in> set VALID_CURRENCIES)"

text \<open>\<open>assertCurrency\<close> returns nothing or throws.\<close>

definition assertCurrency :: "string \<Rightarrow> error + unit" where
  "assertCurrency v =
     (if \<not> isCurrency v
      then Inl (Error (''Invalid currency: '' @ v @ ''. Valid currencies are: ''
                       @ join '', '' VALID_CURRENCIES))
      else Inr ())"

record Price =
  amount :: number
  currency :: Currency

definition Price_create :: "number \<Rightarrow> Currency \<Rightarrow> error + Price" where
  "Price_create amt cur =
     (if \<not> Number_isFinite amt \<or> num_lt amt (Fin 0)
      then Inl (ValidationError_single ''Price'' ''amount'' ''Must be a positive finite number''
                  (Some (VNum amt)))
      else let rounded = num_div (Math_round (num_mul amt (Fin 100))) (Fin 100)
           in Inr \<lparr>amount = rounded, currency = cur\<rparr>)"

definition Price_add :: "Price \<Rightarrow> Price \<Rightarrow> error + Price" where
  "Price_add this other =
     (if currency this \<noteq> currency other
      then Inl (BusinessRuleViolationError ''CurrencyMatch''
                  ''Cannot add prices with different currencies''
                  [(''currency1'', VStr (currency_str (currency this))),
                   (''currency2'', VStr (currency_str (currency other))),
                   (''ruleName'', VStr ''CurrencyMatch'')])
      else Price_create (num_add (amount this) (amount other)) (currency this))"

definition Price_multiply :: "Price \<Rightarrow> number \<Rightarrow> error + Price" where
  "Price_multiply this qty =
     (if \<not> Number_isInteger qty \<or> num_lt qty (Fin 0)
      then Inl (ValidationError_single ''Price'' ''quantity'' ''Must be a positive integer''
                  (Some (VNum qty)))
      else Price_create (num_mul (amount this) qty) (currency this))"

subsection \<open>Regular expressions\<close>

text \<open>
  The two patterns of the code are anchored at both ends and use only character classes,
  sequence and repetition, so \<open>pattern.test(s)\<close> asks whether the whole of \<open>s\<close>
  belongs to a regular language. \<open>rx_test\<close> decides that by derivatives.
\<close>

datatype rx = Zero | One | Atom "char \<Rightarrow> bool" | Alt rx rx | Times rx rx | Star rx

fun nullable :: "rx \<Rightarrow> bool" where
  "nullable Zero = False"
| "nullable One = True"
| "nullable (Atom P) = False"
| "nullable (Alt r s) = (nullable r \<or> nullable s)"
| "nullable (Times r s) = (nullable r \<and> nullable s)"
| "nullable (Star r) = True"

fun deriv :: "char \<Rightarrow> rx \<Rightarrow> rx" where
  "deriv c Zero = Zero"
| "deriv c One = Zero"
| "deriv c (Atom P) = (if P c then One else Zero)"
| "deriv c (Alt r s) = Alt (deriv c r) (deriv c s)"
| "deriv c (Times r s) =
     (if nullable r then Alt (Times (deriv c r) s) (deriv c s) else Times (deriv c r) s)"
| "deriv c (Star r) = Times (deriv c r) (Star r)"

fun rx_test :: "rx \<Rightarrow> string \<Rightarrow> bool" where
  "rx_test r [] = nullable r"
| "rx_test r (c # cs) = rx_test (deriv c r) cs"

text \<open>\<open>r+\<close> and \<open>r{n}\<close>.\<close>

definition Plus :: "rx \<Rightarrow> rx" where
  "Plus r = Times r (Star r)"

fun rep :: "nat \<Rightarrow> rx \<Rightarrow> rx" where
  "rep 0 r = One"
| "rep (Suc n) r = Times r (rep n r)"

definition lit :: "char \<Rightarrow> rx" where
  "lit c = Atom (\<lambda>x. x = c)"

subsection \<open>Email\<close>

text \<open>The class \<open>[^\s@]\<close>.\<close>

definition not_space_at :: "char \<Rightarrow> bool" where
  "not_space_at c = (\<not> is_space c \<and> c \<noteq> CHR ''@'')"

text \<open>\<open>/^[^\s@]+@[^\s@]+\.[^\s@]+$/\<close>\<close>

definition emailRegex :: rx where
  "emailRegex =
     Times (Plus (Atom not_space_at))
       (Times (lit CHR ''@'')
          (Times (Plus (Atom not_space_at))
             (Times (lit CHR ''.'') (Plus (Atom not_space_at)))))"

datatype Email = Email (email_value: string)

definition Email_create :: "string \<Rightarrow> error + Email" where
  "Email_create v =
     (let trimmed = toLowerCase (trim v)
      in if trimmed = []
         then Inl (ValidationError_single ''Email'' ''value'' ''Email cannot be empty'' None)
         else if \<not> rx_test emailRegex trimmed
         then Inl (ValidationError_single ''Email'' ''value'' ''Invalid email format''
                     (Some (VStr v)))
         else Inr (Email trimmed))"

subsection \<open>OrderId\<close>

definition hex :: "char \<Rightarrow> bool" where
  "hex c = (c \<in> set ''0123456789abcdefABCDEF'')"

text \<open>
  \<open>/^[0-9a-f]{8}-[0-9a-f]{4}-4[0-9a-f]{3}-[89ab][0-9a-f]{3}-[0-9a-f]{12}$/i\<close>;
  the flag \<open>i\<close> lets the letters match in either case.
\<close>

definition uuidRegex :: rx where
  "uuidRegex =
     Times (rep 8 (Atom hex))
       (Times (lit CHR ''-'')
          (Times (rep 4 (Atom hex))
             (Times (lit CHR ''-'')
                (Times (lit CHR ''4'')
                   (Times (rep 3 (Atom hex))
                      (Times (lit CHR ''-'')
                         (Times (Atom (\<lambda>c. c \<in> set ''89abAB''))
                            (Times (rep 3 (Atom hex))
                               (Times (lit CHR ''-'') (rep 12 (Atom hex)))))))))))"

datatype OrderId = OrderId (order_id_value: string)

definition OrderId_create :: "string \<Rightarrow> error + OrderId" where
  "OrderId_create v =
     (if v = [] \<or> length (trim v) = 0
      then Inl (ValidationError_single ''OrderId'' ''value'' ''OrderId cannot be empty'' None)
      else if \<not> rx_test uuidRegex v
      then Inl (ValidationError_single ''OrderId'' ''value''
                  ''Invalid OrderId format (must be UUID v4)'' (Some (VStr v)))
      else Inr (OrderId v))"

text \<open>
  \<open>generate\<close> passes the result of \<open>crypto.randomUUID()\<close> to \<open>create\<close>; the random
  string is an argument here.
\<close>

definition OrderId_generate :: "string \<Rightarrow> error + OrderId" where
  "OrderId_generate uuid = OrderId_create uuid"

section \<open>Customer\<close>

datatype CustomerId = CustomerId (customer_id_value: string)

definition CustomerId_create :: "string \<Rightarrow> error + CustomerId" where
  "CustomerId_create v =
     (if v = [] \<or> length (trim v) = 0
      then Inl (Error ''CustomerId cannot be empty'')
      else Inr (CustomerId v))"

definition CustomerId_generate :: "string \<Rightarrow> error + CustomerId" where
  "CustomerId_generate uuid = CustomerId_create uuid"

text \<open>A \<open>Date\<close> is its number of milliseconds.\<close>

type_synonym Date = nat

record Customer =
  customer_id :: CustomerId
  name :: string
  email :: Email
  isActive :: bool
  customer_createdAt :: Date

text \<open>
  \<open>create\<close> takes the random identifier and the current instant as arguments. A mutator
  returns what it threw, if anything, together with the object as the call left it.
\<close>

definition Customer_create :: "string \<Rightarrow> Date \<Rightarrow> string \<Rightarrow> Email \<Rightarrow> error + Customer" where
  "Customer_create uuid now nm em =
     (if nm = [] \<or> length (trim nm) = 0
      then Inl (ValidationError_single ''Customer'' ''name'' ''Customer name cannot be empty''
                  None)
      else case CustomerId_generate uuid of
             Inl e \<Rightarrow> Inl e
           | Inr cid \<Rightarrow>
               Inr \<lparr>customer_id = cid, name = trim nm, email = em, isActive = True,
                    customer_createdAt = now\<rparr>)"

definition Customer_reconstitute ::
  "CustomerId \<Rightarrow> string \<Rightarrow> Email \<Rightarrow> bool \<Rightarrow> Date \<Rightarrow> Customer" where
  "Customer_reconstitute cid nm em active created =
     \<lparr>customer_id = cid, name = nm, email = em, isActive = active,
      customer_createdAt = created\<rparr>"

definition updateName :: "string \<Rightarrow> Customer \<Rightarrow> (error + unit) \<times> Customer" where
  "updateName newName c =
     (if newName = [] \<or> length (trim newName) = 0
      then (Inl (ValidationError_single ''Customer'' ''name'' ''Customer name cannot be empty''
                   None), c)
      else (Inr (), c\<lparr>name := trim newName\<rparr>))"

definition updateEmail :: "Email \<Rightarrow> Customer \<Rightarrow> (error + unit) \<times> Customer" where
  "updateEmail newEmail c = (Inr (), c\<lparr>email := newEmail\<rparr>)"

definition deactivate :: "Customer \<Rightarrow> (error + unit) \<times> Customer" where
  "deactivate c =
     (if \<not> isActive c
      then (Inl (InvalidStateError ''Customer'' ''inactive'' ''deactivate'' None), c)
      else (Inr (), c\<lparr>isActive := False\<rparr>))"

definition activate :: "Customer \<Rightarrow> (error + unit) \<times> Customer" where
  "activate c =
     (if isActive c
      then (Inl (InvalidStateError ''Customer'' ''active'' ''activate'' None), c)
      else (Inr (), c\<lparr>isActive := True\<rparr>))"

section \<open>Order\<close>

datatype OrderStatus = PENDING | CONFIRMED | SHIPPED | DELIVERED | CANCELLED

text \<open>\<open>OrderStatus\<close> is a union of string literals; this is the string of each.\<close>

fun status_str :: "OrderStatus \<Rightarrow> string" where
  "status_str PENDING = ''PENDING''"
| "status_str CONFIRMED = ''CONFIRMED''"
| "status_str SHIPPED = ''SHIPPED''"
| "status_str DELIVERED = ''DELIVERED''"
| "status_str CANCELLED = ''CANCELLED''"

record OrderItem =
  productId :: string
  productName :: string
  quantity :: number
  unitPrice :: Price

subsection \<open>The store\<close>

text \<open>
  An \<open>OrderItem\<close> is a mutable object and an \<open>OrderItem[]\<close> a mutable array of references
  to such objects, and the code copies arrays and updates both in place. The store holds the
  objects and the arrays by reference; \<open>next_arr\<close> is the next unused array reference.
\<close>

type_synonym ref = nat

record heap =
  objs :: "ref \<Rightarrow> OrderItem"
  arrs :: "ref \<Rightarrow> ref list"
  next_arr :: ref

text \<open>The spread \<open>[...xs]\<close>: a new array with the same references.\<close>

definition array_copy :: "ref \<Rightarrow> heap \<Rightarrow> ref \<times> heap" where
  "array_copy a h =
     (next_arr h, h\<lparr>arrs := (arrs h)(next_arr h := arrs h a), next_arr := Suc (next_arr h)\<rparr>)"

text \<open>\<open>xs.push(x)\<close> and the assignment \<open>x.quantity = q\<close>.\<close>

definition array_push :: "ref \<Rightarrow> ref \<Rightarrow> heap \<Rightarrow> heap" where
  "array_push a x h = h\<lparr>arrs := (arrs h)(a := arrs h a @ [x])\<rparr>"

definition set_quantity :: "ref \<Rightarrow> number \<Rightarrow> heap \<Rightarrow> heap" where
  "set_quantity x q h = h\<lparr>objs := (objs h)(x := (objs h x)\<lparr>quantity := q\<rparr>)\<rparr>"

text \<open>\<open>xs.findIndex(p)\<close>: the first index whose element satisfies \<open>p\<close>, or \<open>-1\<close>.\<close>

fun findIndex_from :: "int \<Rightarrow> ('a \<Rightarrow> bool) \<Rightarrow> 'a list \<Rightarrow> int" where
  "findIndex_from i p [] = - 1"
| "findIndex_from i p (x # xs) = (if p x then i else findIndex_from (i + 1) p xs)"

definition findIndex :: "('a \<Rightarrow> bool) \<Rightarrow> 'a list \<Rightarrow> int" where
  "findIndex p xs = findIndex_from 0 p xs"

subsection \<open>The entity\<close>

record Order =
  order_id :: OrderId
  customerEmail :: Email
  items_ref :: ref
  status :: OrderStatus
  createdAt :: Date

text \<open>
  \<open>create\<close> takes the random identifier and the current instant as arguments, and the
  reference of the caller's array. The arguments of the constructor are evaluated from left
  to right: the identifier first, then the copy.
\<close>

definition Order_create ::
  "string \<Rightarrow> Date \<Rightarrow> Email \<Rightarrow> ref \<Rightarrow> heap \<Rightarrow> (error + Order) \<times> heap" where
  "Order_create uuid now em its h =
     (if length (arrs h its) = 0
      then (Inl (ValidationError_single ''Order'' ''items'' ''Order must have at least one item''
                   None), h)
      else case OrderId_generate uuid of
             Inl e \<Rightarrow> (Inl e, h)
           | Inr oid \<Rightarrow>
               (let (a, h') = array_copy its h
                in (Inr \<lparr>order_id = oid, customerEmail = em, items_ref = a, status = PENDING,
                         createdAt = now\<rparr>, h')))"

definition Order_reconstitute ::
  "OrderId \<Rightarrow> Email \<Rightarrow> ref \<Rightarrow> OrderStatus \<Rightarrow> Date \<Rightarrow> Order" where
  "Order_reconstitute oid em its st created =
     \<lparr>order_id = oid, customerEmail = em, items_ref = its, status = st, createdAt = created\<rparr>"

text \<open>The getter \<open>items\<close> returns a new array.\<close>

definition Order_items :: "Order \<Rightarrow> heap \<Rightarrow> ref \<times> heap" where
  "Order_items ord h = array_copy (items_ref ord) h"

text \<open>What a reader of the order sees in its array: the items, in order.\<close>

definition items_view :: "Order \<Rightarrow> heap \<Rightarrow> OrderItem list" where
  "items_view ord h = map (objs h) (arrs h (items_ref ord))"

text \<open>The body of the loop of \<open>calculateTotal\<close>, run over the items from index 1 on.\<close>

fun total_loop :: "OrderItem list \<Rightarrow> Price \<Rightarrow> error + Price" where
  "total_loop [] tot = Inr tot"
| "total_loop (item # rest) tot =
     (case Price_multiply (unitPrice item) (quantity item) of
        Inl e \<Rightarrow> Inl e
      | Inr itemTotal \<Rightarrow>
          (case Price_add tot itemTotal of
             Inl e \<Rightarrow> Inl e
           | Inr tot' \<Rightarrow> total_loop rest tot'))"

definition calculateTotal :: "Order \<Rightarrow> heap \<Rightarrow> error + Price" where
  "calculateTotal ord h =
     (let its = map (objs h) (arrs h (items_ref ord))
      in if length its = 0 then Price_create (Fin 0) USD
         else let firstItem = its ! 0
              in case Price_multiply (unitPrice firstItem) (quantity firstItem) of
                   Inl e \<Rightarrow> Inl e
                 | Inr tot \<Rightarrow> total_loop (drop 1 its) tot)"

text \<open>
  A mutator returns what it threw, if anything, together with the order (and the store) as
  the call left them.
\<close>

definition confirm :: "Order \<Rightarrow> (error + unit) \<times> Order" where
  "confirm ord =
     (if status ord \<noteq> PENDING
      then (Inl (InvalidStateError ''Order'' (status_str (status ord)) ''confirm''
                   (Some [''PENDING''])), ord)
      else (Inr (), ord\<lparr>status := CONFIRMED\<rparr>))"

definition ship :: "Order \<Rightarrow> (error + unit) \<times> Order" where
  "ship ord =
     (if status ord \<noteq> CONFIRMED
      then (Inl (InvalidStateError ''Order'' (status_str (status ord)) ''ship''
                   (Some [''CONFIRMED''])), ord)
      else (Inr (), ord\<lparr>status := SHIPPED\<rparr>))"

definition deliver :: "Order \<Rightarrow> (error + unit) \<times> Order" where
  "deliver ord =
     (if status ord \<noteq> SHIPPED
      then (Inl (InvalidStateError ''Order'' (status_str (status ord)) ''deliver''
                   (Some [''SHIPPED''])), ord)
      else (Inr (), ord\<lparr>status := DELIVERED\<rparr>))"

definition cancel :: "Order \<Rightarrow> (error + unit) \<times> Order" where
  "cancel ord =
     (if status ord = DELIVERED
      then (Inl (InvalidStateError ''Order'' (status_str (status ord)) ''cancel''
                   (Some [''PENDING'', ''CONFIRMED'', ''SHIPPED''])), ord)
      else if status ord = CANCELLED
      then (Inl (InvalidStateError ''Order'' (status_str (status ord)) ''cancel'' None), ord)
      else (Inr (), ord\<lparr>status := CANCELLED\<rparr>))"

definition addItem :: "ref \<Rightarrow> Order \<Rightarrow> heap \<Rightarrow> (error + unit) \<times> Order \<times> heap" where
  "addItem item ord h =
     (if status ord \<noteq> PENDING
      then (Inl (InvalidStateError ''Order'' (status_str (status ord)) ''add items''
                   (Some [''PENDING''])), ord, h)
      else let existingItemIndex =
                 findIndex (\<lambda>i. productId (objs h i) = productId (objs h item))
                   (arrs h (items_ref ord))
           in if 0 \<le> existingItemIndex
              then let existingItem = arrs h (items_ref ord) ! nat existingItemIndex
                   in (Inr (), ord,
                       set_quantity existingItem
                         (num_add (quantity (objs h existingItem)) (quantity (objs h item))) h)
              else (Inr (), ord, array_push (items_ref ord) item h))"

subsection \<open>The transition table of the specification\<close>

datatype action = Confirm | Ship | Deliver | Cancel

fun action_name :: "action \<Rightarrow> string" where
  "action_name Confirm = ''confirm''"
| "action_name Ship = ''ship''"
| "action_name Deliver = ''deliver''"
| "action_name Cancel = ''cancel''"

fun run_action :: "action \<Rightarrow> Order \<Rightarrow> (error + unit) \<times> Order" where
  "run_action Confirm ord = confirm ord"
| "run_action Ship ord = ship ord"
| "run_action Deliver ord = deliver ord"
| "run_action Cancel ord = cancel ord"

text \<open>
  The rows of the table: the next state of a listed (state, action) pair, and the
  allowed-states hint the table shows for an action (none for \<open>cancel\<close> on a cancelled
  order).
\<close>

fun table_next :: "OrderStatus \<Rightarrow> action \<Rightarrow> OrderStatus option" where
  "table_next PENDING Confirm = Some CONFIRMED"
| "table_next CONFIRMED Ship = Some SHIPPED"
| "table_next SHIPPED Deliver = Some DELIVERED"
| "table_next PENDING Cancel = Some CANCELLED"
| "table_next CONFIRMED Cancel = Some CANCELLED"
| "table_next SHIPPED Cancel = Some CANCELLED"
| "table_next s a = None"

fun table_hint :: "OrderStatus \<Rightarrow> action \<Rightarrow> string list option" where
  "table_hint s Confirm = Some [''PENDING'']"
| "table_hint s Ship = Some [''CONFIRMED'']"
| "table_hint s Deliver = Some [''SHIPPED'']"
| "table_hint CANCELLED Cancel = None"
| "table_hint s Cancel = Some [''PENDING'', ''CONFIRMED'', ''SHIPPED'']"

subsection \<open>What an error carries\<close>

text \<open>The \<open>allowedStates\<close> entry of the context of an error.\<close>

fun allowedStates :: "error \<Rightarrow> string list option" where
  "allowedStates (InvalidStateError entityName currentState attemptedAction allowed) = allowed"
| "allowedStates e = None"

text \<open>\<open>hay.includes(needle)\<close>.\<close>

fun starts_with :: "string \<Rightarrow> string \<Rightarrow> bool" where
  "starts_with [] hay = True"
| "starts_with (c # cs) [] = False"
| "starts_with (c # cs) (d # ds) = (c = d \<and> starts_with cs ds)"

fun str_includes :: "string \<Rightarrow> string \<Rightarrow> bool" where
  "str_includes needle [] = starts_with needle []"
| "str_includes needle (d # ds) = (starts_with needle (d # ds) \<or> str_includes needle ds)"

subsection \<open>The sample order of the tests\<close>

text \<open>
  The two items of \<open>Order.spec.ts\<close>: quantity 2 at 10 EUR and quantity 1 at 20 EUR. In
  \<open>sample_heap\<close> the caller's array is at reference 0 and holds the two objects, at
  references 0 and 1. The object at reference 2 is the duplicate the tests add (3 more of
  \<open>prod-1\<close>), every other object is the new item they add (\<open>prod-3\<close>).
\<close>

definition item1 :: OrderItem where
  "item1 = \<lparr>productId = ''prod-1'', productName = ''Product 1'', quantity = Fin 2,
            unitPrice = \<lparr>amount = Fin 10, currency = EUR\<rparr>\<rparr>"

definition item2 :: OrderItem where
  "item2 = \<lparr>productId = ''prod-2'', productName = ''Product 2'', quantity = Fin 1,
            unitPrice = \<lparr>amount = Fin 20, currency = EUR\<rparr>\<rparr>"

definition item3 :: OrderItem where
  "item3 = \<lparr>productId = ''prod-3'', productName = ''Product 3'', quantity = Fin 1,
            unitPrice = \<lparr>amount = Fin 15, currency = EUR\<rparr>\<rparr>"

definition sample_heap :: heap where
  "sample_heap =
     \<lparr>objs = (\<lambda>r. if r = 0 then item1 else if r = 1 then item2
                  else if r = 2 then item1\<lparr>quantity := Fin 3\<rparr> else item3),
      arrs = (\<lambda>a. if a = 0 then [0, 1] else []),
      next_arr = 1\<rparr>"

text \<open>The same array when the second item is priced in USD.\<close>

definition mixed_heap :: heap where
  "mixed_heap =
     \<lparr>objs = (\<lambda>r. if r = 0 then item1
                  else item2\<lparr>unitPrice := \<lparr>amount = Fin 20, currency = USD\<rparr>\<rparr>),
      arrs = (\<lambda>a. if a = 0 then [0, 1] else []),
      next_arr = 1\<rparr>"

definition sample_uuid :: string where
  "sample_uuid = ''123e4567-e89b-42d3-a456-426614174000''"

definition sample_email :: Email where
  "sample_email = Email ''customer@example.com''"

text \<open>
  The same array when the first item has quantity 3/2, and when it has quantity
  \<open>2 ^ 53\<close> and the object at reference 2 is one more of \<open>prod-1\<close>.
\<close>

definition fractional_heap :: heap where
  "fractional_heap =
     \<lparr>objs = (\<lambda>r. if r = 0 then item1\<lparr>quantity := Fin (3 / 2)\<rparr>
                  else item2\<lparr>unitPrice := \<lparr>amount = Fin 20, currency = USD\<rparr>\<rparr>),
      arrs = (\<lambda>a. if a = 0 then [0, 1] else []),
      next_arr = 1\<rparr>"

definition big_heap :: heap where
  "big_heap =
     \<lparr>objs = (\<lambda>r. if r = 0 then item1\<lparr>quantity := Fin (2 ^ 53)\<rparr>
                  else if r = 1 then item2 else item1\<lparr>quantity := Fin 1\<rparr>),
      arrs = (\<lambda>a. if a = 0 then [0, 1] else []),
      next_arr = 1\<rparr>"

text \<open>A caller's array of two different objects with the same \<open>productId\<close>.\<close>

definition duplicate_heap :: heap where
  "duplicate_heap =
     \<lparr>objs = (\<lambda>r. item1\<lparr>quantity := Fin (of_nat r + 1)\<rparr>),
      arrs = (\<lambda>a. if a = 0 then [0, 1] else []),
      next_arr = 1\<rparr>"

subsection \<open>The total as the specification describes it\<close>

text \<open>
  The price of one line, one step of the accumulation (an error, once raised, is the
  result), and the fold from the first line over the lines after it.
\<close>

definition line_total :: "OrderItem \<Rightarrow> error + Price" where
  "line_total item = Price_multiply (unitPrice item) (quantity item)"

definition add_line :: "error + Price \<Rightarrow> OrderItem \<Rightarrow> error + Price" where
  "add_line acc item =
     (case acc of
        Inl e \<Rightarrow> Inl e
      | Inr tot \<Rightarrow> (case line_total item of Inl e \<Rightarrow> Inl e | Inr p \<Rightarrow> Price_add tot p))"

definition fold_total :: "OrderItem list \<Rightarrow> error + Price" where
  "fold_total its = foldl add_line (line_total (its ! 0)) (drop 1 its)"

text \<open>
  Items carry mixed currencies when two of them differ in currency. Then some item is the
  first whose currency is not that of the first item: \<open>before_other\<close> are the items
  before it and \<open>first_other\<close> is that item.
\<close>

definition mixed_currencies :: "OrderItem list \<Rightarrow> bool" where
  "mixed_currencies its =
     (\<exists>x \<in> set its. \<exists>y \<in> set its. currency (unitPrice x) \<noteq> currency (unitPrice y))"

definition same_currency :: "OrderItem \<Rightarrow> OrderItem \<Rightarrow> bool" where
  "same_currency a x = (currency (unitPrice x) = currency (unitPrice a))"

definition before_other :: "OrderItem list \<Rightarrow> OrderItem list" where
  "before_other its = takeWhile (same_currency (its ! 0)) its"

definition first_other :: "OrderItem list \<Rightarrow> OrderItem option" where
  "first_other its =
     (case dropWhile (same_currency (its ! 0)) its of [] \<Rightarrow> None | x # rest \<Rightarrow> Some x)"

subsection \<open>The language of a regular expression\<close>

text \<open>
  The strings a regular expression matches, and the pattern the specification describes for
  an email: a local part, an \<open>@\<close>, a domain part, a dot and a last label, each a
  non-empty run of characters that are neither white space nor \<open>@\<close>.
\<close>

inductive rx_lang :: "rx \<Rightarrow> string \<Rightarrow> bool" where
  lang_One: "rx_lang One []"
| lang_Atom: "P c \<Longrightarrow> rx_lang (Atom P) [c]"
| lang_AltL: "rx_lang r w \<Longrightarrow> rx_lang (Alt r s) w"
| lang_AltR: "rx_lang s w \<Longrightarrow> rx_lang (Alt r s) w"
| lang_Times: "rx_lang r u \<Longrightarrow> rx_lang s v \<Longrightarrow> rx_lang (Times r s) (u @ v)"
| lang_StarNil: "rx_lang (Star r) []"
| lang_StarStep: "rx_lang r u \<Longrightarrow> rx_lang (Star r) v \<Longrightarrow> rx_lang (Star r) (u @ v)"

definition email_pattern :: "string \<Rightarrow> bool" where
  "email_pattern s =
     (\<exists>u d t. s = u @ ''@'' @ d @ ''.'' @ t \<and> u \<noteq> [] \<and> d \<noteq> [] \<and> t \<noteq> []
        \<and> (\<forall>c \<in> set (u @ d @ t). \<not> is_space c \<and> c \<noteq> CHR ''@''))"

subsection \<open>Sequences of calls\<close>

text \<open>The mutators of an order as calls, each run on the order and the store.\<close>

datatype call = CallConfirm | CallShip | CallDeliver | CallCancel | CallAddItem ref

fun exec_call :: "call \<Rightarrow> Order \<times> heap \<Rightarrow> (error + unit) \<times> Order \<times> heap" where
  "exec_call CallConfirm (ord, h) = (let (r, ord') = confirm ord in (r, ord', h))"
| "exec_call CallShip (ord, h) = (let (r, ord') = ship ord in (r, ord', h))"
| "exec_call CallDeliver (ord, h) = (let (r, ord') = deliver ord in (r, ord', h))"
| "exec_call CallCancel (ord, h) = (let (r, ord') = cancel ord in (r, ord', h))"
| "exec_call (CallAddItem item) (ord, h) = addItem item ord h"

text \<open>A sequence of calls, each of which returns normally.\<close>

fun exec_calls :: "call list \<Rightarrow> Order \<times> heap \<Rightarrow> (Order \<times> heap) option" where
  "exec_calls [] s = Some s"
| "exec_calls (c # cs) s =
     (case exec_call c s of (Inl e, s') \<Rightarrow> None | (Inr u, s') \<Rightarrow> exec_calls cs s')"

section \<open>Double arithmetic\<close>

text \<open>
  \<open>exponent\<close> is the binary exponent; a value that is a double is its own rounding, in
  particular every integer up to \<open>2 ^ 53\<close> in magnitude; \<open>2 ^ 1024\<close> and more rounds
  to an infinity.
\<close>

lemma pow2_powi: "pow2 k = 2 powi k"
  by (simp add: pow2_def power_int_def power_one_over inverse_eq_divide)

lemma pow2_pos: "0 < pow2 k"
  by (simp add: pow2_powi)

lemma pow2_add: "pow2 (a + b) = pow2 a * pow2 b"
  by (simp add: pow2_powi power_int_add)

lemma pow2_diff: "pow2 (a - b) = pow2 a / pow2 b"
  by (simp add: pow2_powi power_int_diff)

lemma pow2_mono: "a \<le> b \<Longrightarrow> pow2 a \<le> pow2 b"
  by (simp add: pow2_powi power_int_increasing)

lemma pow2_less_iff: "pow2 a < pow2 b \<longleftrightarrow> a < b"
  using pow2_mono [of b a] power_int_strict_increasing [of a b "2::rat"]
  by (auto simp: pow2_powi not_le [symmetric])

lemma pow2_nat: "0 \<le> k \<Longrightarrow> pow2 k = of_int (2 ^ nat k)"
  by (simp add: pow2_def)

lemma bitlen_pow2_bounds:
  assumes "0 < n"
  shows "pow2 (bitlen n - 1) \<le> of_int n" "of_int n < pow2 (bitlen n)"
proof -
  from assms have pos: "1 \<le> bitlen n"
    using bitlen_eq_zero_iff [of n] bitlen_nonneg [of n] by linarith
  from bitlen_bounds [OF assms]
  have "(of_int (2 ^ nat (bitlen n - 1)) :: rat) \<le> of_int n"
    "(of_int n :: rat) < of_int (2 ^ nat (bitlen n))"
    by (simp_all only: of_int_le_iff of_int_less_iff)
  with pos show "pow2 (bitlen n - 1) \<le> of_int n" "of_int n < pow2 (bitlen n)"
    by (simp_all add: pow2_nat)
qed

lemma exponent_bounds:
  assumes "0 < q"
  shows "pow2 (exponent q) \<le> q" "q < pow2 (exponent q + 1)"
proof -
  obtain n d where nd: "quotient_of q = (n, d)"
    by force
  then have d: "0 < d" and q: "q = of_int n / of_int d"
    by (simp_all add: quotient_of_denom_pos quotient_of_div)
  with assms have n: "0 < n"
    by (simp add: zero_less_divide_iff)
  let ?k = "bitlen n - bitlen d"
  note bn = bitlen_pow2_bounds [OF n] and bd = bitlen_pow2_bounds [OF d]
  have "q < pow2 (bitlen n) / of_int d"
    unfolding q using bn(2) d by (simp add: divide_strict_right_mono)
  also have "\<dots> \<le> pow2 (bitlen n) / pow2 (bitlen d - 1)"
    using bd(1) pow2_pos [of "bitlen n"] pow2_pos [of "bitlen d - 1"]
    by (simp add: frac_le)
  also have "\<dots> = pow2 (?k + 1)"
    by (simp add: pow2_diff [symmetric] algebra_simps)
  finally have upper: "q < pow2 (?k + 1)" .
  have "pow2 (?k - 1) = pow2 (bitlen n - 1) / pow2 (bitlen d)"
    by (simp add: pow2_diff [symmetric] algebra_simps)
  also have "\<dots> \<le> of_int n / pow2 (bitlen d)"
    using bn(1) pow2_pos [of "bitlen d"] by (simp add: divide_right_mono)
  also have "\<dots> < q"
    unfolding q using bd(2) n d by (simp add: frac_less2)
  finally have lower: "pow2 (?k - 1) < q" .
  have e: "exponent q = (if pow2 ?k \<le> q then ?k else ?k - 1)"
    by (simp add: exponent_def nd)
  from upper lower show "pow2 (exponent q) \<le> q" "q < pow2 (exponent q + 1)"
    by (auto simp: e not_le)
qed

lemma round_half_even_int: "round_half_even (of_int z) = z"
  by (simp add: round_half_even_def)


lemma exponent_less:
  assumes "0 < q" "q < pow2 b"
  shows "exponent q < b"
proof -
  from exponent_bounds(1) [OF assms(1)] assms(2) have "pow2 (exponent q) < pow2 b"
    by simp
  then show ?thesis
    by (simp add: pow2_less_iff)
qed

lemma exponent_ge:
  assumes "pow2 b \<le> q"
  shows "b \<le> exponent q"
proof -
  from assms pow2_pos [of b] have "0 < q"
    by simp
  from exponent_bounds(2) [OF this] assms have "pow2 b < pow2 (exponent q + 1)"
    by simp
  then show ?thesis
    by (simp add: pow2_less_iff)
qed

lemma round_double_representable:
  assumes m: "\<bar>m\<bar> < 2 ^ 53" and lo: "- 1074 \<le> e'" and hi: "e' \<le> 971"
  shows "round_double (of_int m * pow2 e') = Fin (of_int m * pow2 e')"
proof (cases "m = 0")
  case True
  then show ?thesis
    by (simp add: round_double_def)
next
  case False
  define q :: rat where "q = of_int m * pow2 e'"
  define e where "e = max (exponent \<bar>q\<bar> - 52) (- 1074)"
  from False pow2_pos [of e'] have q0: "q \<noteq> 0"
    by (simp add: q_def)
  have absq: "\<bar>q\<bar> = of_int \<bar>m\<bar> * pow2 e'"
    using pow2_pos [of e'] by (simp add: q_def abs_mult)
  from q0 have qpos: "0 < \<bar>q\<bar>"
    by simp
  from m have "(of_int \<bar>m\<bar> :: rat) < of_int (2 ^ 53)"
    by (simp only: of_int_less_iff)
  then have "\<bar>q\<bar> < pow2 53 * pow2 e'"
    unfolding absq using pow2_pos [of e'] by (simp add: pow2_def)
  then have "\<bar>q\<bar> < pow2 (53 + e')"
    by (simp add: pow2_add)
  from exponent_less [OF qpos this] lo have le: "e \<le> e'"
    by (simp add: e_def)
  then obtain j where j: "e' = e + int j"
    by (metis zle_iff_zadd)
  have pow_split: "pow2 e' = 2 ^ j * pow2 e"
    by (simp add: j pow2_add) (simp add: pow2_def)
  have quot: "\<bar>q\<bar> / pow2 e = of_int (\<bar>m\<bar> * 2 ^ j)"
    unfolding absq pow_split using pow2_pos [of e] by simp
  have rnd: "round_half_even (\<bar>q\<bar> / pow2 e) = \<bar>m\<bar> * 2 ^ j"
    unfolding quot by (rule round_half_even_int)
  have no_overflow: "\<not> (971 < e \<or> (e = 971 \<and> \<bar>m\<bar> * 2 ^ j = 2 ^ 53))"
  proof
    assume "971 < e \<or> (e = 971 \<and> \<bar>m\<bar> * 2 ^ j = 2 ^ 53)"
    with le hi have eq: "e = 971" and big: "\<bar>m\<bar> * 2 ^ j = 2 ^ 53"
      by linarith+
    from eq hi j have "j = 0"
      by linarith
    with big m show False
      by simp
  qed
  have sign: "sgn q = of_int (sgn m)"
  proof -
    have "sgn (pow2 e') = 1"
      using pow2_pos [of e'] by simp
    moreover have "sgn (of_int m :: rat) = of_int (sgn m)"
      by (simp add: sgn_if)
    ultimately show ?thesis
      by (simp add: q_def sgn_mult)
  qed
  have "sgn q * of_int (\<bar>m\<bar> * 2 ^ j) * pow2 e = of_int (sgn m * \<bar>m\<bar>) * (2 ^ j * pow2 e)"
    by (simp add: sign)
  also have "\<dots> = q"
    by (simp add: mult_sgn_abs pow_split [symmetric] q_def)
  finally have value_eq: "sgn q * of_int (\<bar>m\<bar> * 2 ^ j) * pow2 e = q" .
  have "round_double q = Fin q"
    using q0 no_overflow value_eq
    by (simp add: round_double_def Let_def e_def [symmetric] rnd)
  then show ?thesis
    by (simp add: q_def)
qed

lemma round_double_int:
  assumes "\<bar>n\<bar> \<le> 2 ^ 53"
  shows "round_double (of_int n) = Fin (of_int n)"
proof (cases "\<bar>n\<bar> < 2 ^ 53")
  case True
  from round_double_representable [OF True, of 0] show ?thesis
    by (simp add: pow2_def)
next
  case False
  with assms have "n = 2 ^ 53 \<or> n = - (2 ^ 53)"
    by linarith
  then have "of_int n = (of_int (n div 2) * pow2 1 :: rat)" "\<bar>n div 2\<bar> < 2 ^ 53"
    by (auto simp: pow2_def)
  with round_double_representable [of "n div 2" 1] show ?thesis
    by simp
qed

lemma round_double_overflow:
  assumes "pow2 1024 \<le> \<bar>q\<bar>"
  shows "round_double q = (if 0 < q then PosInfinity else NegInfinity)"
proof -
  define e where "e = max (exponent \<bar>q\<bar> - 52) (- 1074)"
  from assms pow2_pos [of 1024] have "q \<noteq> 0"
    by auto
  moreover from exponent_ge [OF assms] have "971 < e"
    by (simp add: e_def)
  ultimately show ?thesis
    by (simp add: round_double_def Let_def e_def [symmetric])
qed

lemma round_double_cases:
  "round_double q \<noteq> NaN"
  "round_double q = PosInfinity \<Longrightarrow> 0 < q"
  "round_double q = NegInfinity \<Longrightarrow> q < 0"
  by (auto simp: round_double_def Let_def split: if_splits)

section \<open>The state machine of an order\<close>

lemma run_action_table:
  "run_action a ord =
     (case table_next (status ord) a of
        Some s \<Rightarrow> (Inr (), ord\<lparr>status := s\<rparr>)
      | None \<Rightarrow>
          (Inl (InvalidStateError ''Order'' (status_str (status ord)) (action_name a)
                  (table_hint (status ord) a)), ord))"
  by (cases a; cases "status ord") (simp_all add: confirm_def ship_def deliver_def cancel_def)

text \<open>
  C1. Every action on every order follows the transition table: \<open>confirm\<close> succeeds exactly
  when the status is PENDING and sets CONFIRMED, \<open>ship\<close> exactly when CONFIRMED and sets
  SHIPPED, \<open>deliver\<close> exactly when SHIPPED and sets DELIVERED, \<open>cancel\<close> exactly when the
  status is PENDING, CONFIRMED or SHIPPED and sets CANCELLED; every other pair of a state and
  an action fails with an InvalidStateError that carries the current state, the name of the
  action and the allowed-states hint of the table, and leaves the order as it was.
\<close>

theorem order_state_machine:
  "run_action a ord =
     (case table_next (status ord) a of
        Some s \<Rightarrow> (Inr (), ord\<lparr>status := s\<rparr>)
      | None \<Rightarrow>
          (Inl (InvalidStateError ''Order'' (status_str (status ord)) (action_name a)
                  (table_hint (status ord) a)), ord))
   \<and> (confirm ord = (Inr (), ord\<lparr>status := CONFIRMED\<rparr>)) = (status ord = PENDING)
   \<and> (ship ord = (Inr (), ord\<lparr>status := SHIPPED\<rparr>)) = (status ord = CONFIRMED)
   \<and> (deliver ord = (Inr (), ord\<lparr>status := DELIVERED\<rparr>)) = (status ord = SHIPPED)
   \<and> (cancel ord = (Inr (), ord\<lparr>status := CANCELLED\<rparr>))
       = (status ord = PENDING \<or> status ord = CONFIRMED \<or> status ord = SHIPPED)
   \<and> (fst (confirm ord) = Inr ()) = (status ord = PENDING)
   \<and> (fst (ship ord) = Inr ()) = (status ord = CONFIRMED)
   \<and> (fst (deliver ord) = Inr ()) = (status ord = SHIPPED)
   \<and> (fst (cancel ord) = Inr ())
       = (status ord = PENDING \<or> status ord = CONFIRMED \<or> status ord = SHIPPED)"
proof -
  have succeed: "fst (confirm ord) = Inr () \<longleftrightarrow> status ord = PENDING"
    "fst (ship ord) = Inr () \<longleftrightarrow> status ord = CONFIRMED"
    "fst (deliver ord) = Inr () \<longleftrightarrow> status ord = SHIPPED"
    "fst (cancel ord) = Inr ()
       \<longleftrightarrow> status ord = PENDING \<or> status ord = CONFIRMED \<or> status ord = SHIPPED"
    by (cases "status ord"; simp add: confirm_def ship_def deliver_def cancel_def)+
  have result: "confirm ord = (Inr (), ord\<lparr>status := CONFIRMED\<rparr>) \<longleftrightarrow> status ord = PENDING"
    "ship ord = (Inr (), ord\<lparr>status := SHIPPED\<rparr>) \<longleftrightarrow> status ord = CONFIRMED"
    "deliver ord = (Inr (), ord\<lparr>status := DELIVERED\<rparr>) \<longleftrightarrow> status ord = SHIPPED"
    "cancel ord = (Inr (), ord\<lparr>status := CANCELLED\<rparr>)
       \<longleftrightarrow> status ord = PENDING \<or> status ord = CONFIRMED \<or> status ord = SHIPPED"
    by (cases "status ord"; simp add: confirm_def ship_def deliver_def cancel_def)+
  show ?thesis
    using run_action_table [of a ord] succeed result by blast
qed

text \<open>
  The sequence confirm, ship, deliver on a new order succeeds in this order; \<open>ship\<close> on a
  pending order and \<open>cancel\<close> on a delivered one fail.
\<close>

theorem order_state_machine_witness:
  "run_action Confirm
     \<lparr>order_id = OrderId ''o'', customerEmail = Email ''a@b.c'', items_ref = 0,
      status = PENDING, createdAt = 0\<rparr>
   = (Inr (), \<lparr>order_id = OrderId ''o'', customerEmail = Email ''a@b.c'', items_ref = 0,
               status = CONFIRMED, createdAt = 0\<rparr>)
   \<and> run_action Ship
     \<lparr>order_id = OrderId ''o'', customerEmail = Email ''a@b.c'', items_ref = 0,
      status = CONFIRMED, createdAt = 0\<rparr>
   = (Inr (), \<lparr>order_id = OrderId ''o'', customerEmail = Email ''a@b.c'', items_ref = 0,
               status = SHIPPED, createdAt = 0\<rparr>)
   \<and> run_action Deliver
     \<lparr>order_id = OrderId ''o'', customerEmail = Email ''a@b.c'', items_ref = 0,
      status = SHIPPED, createdAt = 0\<rparr>
   = (Inr (), \<lparr>order_id = OrderId ''o'', customerEmail = Email ''a@b.c'', items_ref = 0,
               status = DELIVERED, createdAt = 0\<rparr>)
   \<and> run_action Ship
     \<lparr>order_id = OrderId ''o'', customerEmail = Email ''a@b.c'', items_ref = 0,
      status = PENDING, createdAt = 0\<rparr>
   = (Inl (InvalidStateError ''Order'' ''PENDING'' ''ship'' (Some [''CONFIRMED''])),
      \<lparr>order_id = OrderId ''o'', customerEmail = Email ''a@b.c'', items_ref = 0,
       status = PENDING, createdAt = 0\<rparr>)
   \<and> run_action Cancel
     \<lparr>order_id = OrderId ''o'', customerEmail = Email ''a@b.c'', items_ref = 0,
      status = DELIVERED, createdAt = 0\<rparr>
   = (Inl (InvalidStateError ''Order'' ''DELIVERED'' ''cancel''
             (Some [''PENDING'', ''CONFIRMED'', ''SHIPPED''])),
      \<lparr>order_id = OrderId ''o'', customerEmail = Email ''a@b.c'', items_ref = 0,
       status = DELIVERED, createdAt = 0\<rparr>)"
  using
    order_state_machine [of Confirm "\<lparr>order_id = OrderId ''o'', customerEmail = Email ''a@b.c'',
      items_ref = 0, status = PENDING, createdAt = 0\<rparr>"]
    order_state_machine [of Ship "\<lparr>order_id = OrderId ''o'', customerEmail = Email ''a@b.c'',
      items_ref = 0, status = CONFIRMED, createdAt = 0\<rparr>"]
    order_state_machine [of Deliver "\<lparr>order_id = OrderId ''o'', customerEmail = Email ''a@b.c'',
      items_ref = 0, status = SHIPPED, createdAt = 0\<rparr>"]
    order_state_machine [of Ship "\<lparr>order_id = OrderId ''o'', customerEmail = Email ''a@b.c'',
      items_ref = 0, status = PENDING, createdAt = 0\<rparr>"]
    order_state_machine [of Cancel "\<lparr>order_id = OrderId ''o'', customerEmail = Email ''a@b.c'',
      items_ref = 0, status = DELIVERED, createdAt = 0\<rparr>"]
  by simp

text \<open>
  C8. \<open>cancel\<close> on a delivered order throws an InvalidStateError whose allowed-states hint is
  PENDING, CONFIRMED, SHIPPED and whose message ends with the clause that lists them;
  \<open>cancel\<close> on a cancelled order throws an InvalidStateError with no hint, and its message
  has no such clause.
\<close>

theorem cancel_hint_asymmetry:
  "(status ord = DELIVERED \<longrightarrow>
      (\<exists>e. cancel ord = (Inl e, ord) \<and> kind_of e = Some KInvalidState
         \<and> allowedStates e = Some [''PENDING'', ''CONFIRMED'', ''SHIPPED'']
         \<and> message e = ''Cannot cancel Order in state '' @ [CHR 0x27] @ ''DELIVERED''
              @ [CHR 0x27] @ ''. Allowed states: PENDING, CONFIRMED, SHIPPED''))
   \<and> (status ord = CANCELLED \<longrightarrow>
      (\<exists>e. cancel ord = (Inl e, ord) \<and> kind_of e = Some KInvalidState
         \<and> allowedStates e = None
         \<and> message e = ''Cannot cancel Order in state '' @ [CHR 0x27] @ ''CANCELLED''
              @ [CHR 0x27]
         \<and> \<not> str_includes ''. Allowed states: '' (message e)))"
  by (simp add: cancel_def)

theorem cancel_hint_asymmetry_witness:
  "(\<exists>e. cancel \<lparr>order_id = OrderId ''o'', customerEmail = Email ''a@b.c'', items_ref = 0,
            status = DELIVERED, createdAt = 0\<rparr>
          = (Inl e, \<lparr>order_id = OrderId ''o'', customerEmail = Email ''a@b.c'', items_ref = 0,
                     status = DELIVERED, createdAt = 0\<rparr>)
        \<and> allowedStates e = Some [''PENDING'', ''CONFIRMED'', ''SHIPPED''])
   \<and> (\<exists>e. cancel \<lparr>order_id = OrderId ''o'', customerEmail = Email ''a@b.c'', items_ref = 0,
            status = CANCELLED, createdAt = 0\<rparr>
          = (Inl e, \<lparr>order_id = OrderId ''o'', customerEmail = Email ''a@b.c'', items_ref = 0,
                     status = CANCELLED, createdAt = 0\<rparr>)
        \<and> allowedStates e = None \<and> \<not> str_includes ''. Allowed states: '' (message e))"
  using
    cancel_hint_asymmetry [of "\<lparr>order_id = OrderId ''o'', customerEmail = Email ''a@b.c'',
      items_ref = 0, status = DELIVERED, createdAt = 0\<rparr>"]
    cancel_hint_asymmetry [of "\<lparr>order_id = OrderId ''o'', customerEmail = Email ''a@b.c'',
      items_ref = 0, status = CANCELLED, createdAt = 0\<rparr>"]
  by simp blast

section \<open>Errors leave the entity as it was\<close>

text \<open>
  C10. When a mutator of an order (\<open>confirm\<close>, \<open>ship\<close>, \<open>deliver\<close>, \<open>cancel\<close>,
  \<open>addItem\<close>) or of a customer (\<open>activate\<close>, \<open>deactivate\<close>, \<open>updateName\<close>) throws,
  the entity, and for \<open>addItem\<close> the store with its items, are exactly what they were before
  the call; \<open>updateEmail\<close> never throws.
\<close>

theorem mutators_atomic_on_error:
  "(confirm ord = (Inl e, ord') \<longrightarrow> ord' = ord)
   \<and> (ship ord = (Inl e, ord') \<longrightarrow> ord' = ord)
   \<and> (deliver ord = (Inl e, ord') \<longrightarrow> ord' = ord)
   \<and> (cancel ord = (Inl e, ord') \<longrightarrow> ord' = ord)
   \<and> (addItem item ord h = (Inl e, ord', h') \<longrightarrow>
        ord' = ord \<and> h' = h \<and> items_view ord' h' = items_view ord h)
   \<and> (activate c = (Inl e, c') \<longrightarrow> c' = c)
   \<and> (deactivate c = (Inl e, c') \<longrightarrow> c' = c)
   \<and> (updateName newName c = (Inl e, c') \<longrightarrow> c' = c)
   \<and> fst (updateEmail newEmail c) = Inr ()"
proof -
  have order_part: "confirm ord = (Inl e, ord') \<longrightarrow> ord' = ord"
    "ship ord = (Inl e, ord') \<longrightarrow> ord' = ord"
    "deliver ord = (Inl e, ord') \<longrightarrow> ord' = ord"
    "cancel ord = (Inl e, ord') \<longrightarrow> ord' = ord"
    by (auto simp: confirm_def ship_def deliver_def cancel_def split: if_splits)
  have add_part: "addItem item ord h = (Inl e, ord', h') \<longrightarrow>
      ord' = ord \<and> h' = h \<and> items_view ord' h' = items_view ord h"
    by (auto simp: addItem_def Let_def split: if_splits)
  have customer_part: "activate c = (Inl e, c') \<longrightarrow> c' = c"
    "deactivate c = (Inl e, c') \<longrightarrow> c' = c"
    "updateName newName c = (Inl e, c') \<longrightarrow> c' = c"
    "fst (updateEmail newEmail c) = Inr ()"
    by (auto simp: activate_def deactivate_def updateName_def updateEmail_def split: if_splits)
  from order_part add_part customer_part show ?thesis
    by blast
qed

text \<open>
  Each failing call at a concrete entity: a confirmed order for \<open>confirm\<close>, \<open>deliver\<close> and
  \<open>addItem\<close>, a pending one for \<open>ship\<close>, a cancelled one for \<open>cancel\<close>, an active and an
  inactive customer, and an empty new name.
\<close>

theorem mutators_atomic_on_error_witness:
  "snd (confirm (Order_reconstitute (OrderId sample_uuid) sample_email 0 CONFIRMED 0))
     = Order_reconstitute (OrderId sample_uuid) sample_email 0 CONFIRMED 0
   \<and> snd (ship (Order_reconstitute (OrderId sample_uuid) sample_email 0 PENDING 0))
     = Order_reconstitute (OrderId sample_uuid) sample_email 0 PENDING 0
   \<and> snd (deliver (Order_reconstitute (OrderId sample_uuid) sample_email 0 CONFIRMED 0))
     = Order_reconstitute (OrderId sample_uuid) sample_email 0 CONFIRMED 0
   \<and> snd (cancel (Order_reconstitute (OrderId sample_uuid) sample_email 0 CANCELLED 0))
     = Order_reconstitute (OrderId sample_uuid) sample_email 0 CANCELLED 0
   \<and> snd (addItem 1 (Order_reconstitute (OrderId sample_uuid) sample_email 0 CONFIRMED 0)
            sample_heap)
     = (Order_reconstitute (OrderId sample_uuid) sample_email 0 CONFIRMED 0, sample_heap)
   \<and> snd (activate (Customer_reconstitute (CustomerId ''c1'') ''John Doe'' sample_email True 0))
     = Customer_reconstitute (CustomerId ''c1'') ''John Doe'' sample_email True 0
   \<and> snd (deactivate
            (Customer_reconstitute (CustomerId ''c1'') ''John Doe'' sample_email False 0))
     = Customer_reconstitute (CustomerId ''c1'') ''John Doe'' sample_email False 0
   \<and> snd (updateName []
            (Customer_reconstitute (CustomerId ''c1'') ''John Doe'' sample_email True 0))
     = Customer_reconstitute (CustomerId ''c1'') ''John Doe'' sample_email True 0"
proof -
  let ?oc = "Order_reconstitute (OrderId sample_uuid) sample_email 0 CONFIRMED 0"
  let ?op = "Order_reconstitute (OrderId sample_uuid) sample_email 0 PENDING 0"
  let ?ox = "Order_reconstitute (OrderId sample_uuid) sample_email 0 CANCELLED 0"
  let ?ca = "Customer_reconstitute (CustomerId ''c1'') ''John Doe'' sample_email True 0"
  let ?ci = "Customer_reconstitute (CustomerId ''c1'') ''John Doe'' sample_email False 0"
  have 1: "confirm ?oc
      = (Inl (InvalidStateError ''Order'' ''CONFIRMED'' ''confirm'' (Some [''PENDING''])),
         snd (confirm ?oc))"
    by (simp add: confirm_def Order_reconstitute_def)
  have 2: "ship ?op
      = (Inl (InvalidStateError ''Order'' ''PENDING'' ''ship'' (Some [''CONFIRMED''])),
         snd (ship ?op))"
    by (simp add: ship_def Order_reconstitute_def)
  have 3: "deliver ?oc
      = (Inl (InvalidStateError ''Order'' ''CONFIRMED'' ''deliver'' (Some [''SHIPPED''])),
         snd (deliver ?oc))"
    by (simp add: deliver_def Order_reconstitute_def)
  have 4: "cancel ?ox
      = (Inl (InvalidStateError ''Order'' ''CANCELLED'' ''cancel'' None), snd (cancel ?ox))"
    by (simp add: cancel_def Order_reconstitute_def)
  have 5: "addItem 1 ?oc sample_heap
      = (Inl (InvalidStateError ''Order'' ''CONFIRMED'' ''add items'' (Some [''PENDING''])),
         fst (snd (addItem 1 ?oc sample_heap)), snd (snd (addItem 1 ?oc sample_heap)))"
    by (simp add: addItem_def Order_reconstitute_def)
  have 6: "activate ?ca
      = (Inl (InvalidStateError ''Customer'' ''active'' ''activate'' None), snd (activate ?ca))"
    by (simp add: activate_def Customer_reconstitute_def)
  have 7: "deactivate ?ci
      = (Inl (InvalidStateError ''Customer'' ''inactive'' ''deactivate'' None),
         snd (deactivate ?ci))"
    by (simp add: deactivate_def Customer_reconstitute_def)
  have 8: "updateName [] ?ca
      = (Inl (ValidationError_single ''Customer'' ''name'' ''Customer name cannot be empty''
                None), snd (updateName [] ?ca))"
    by (simp add: updateName_def)
  note atomic = mutators_atomic_on_error
  from 1 atomic [where ord = ?oc and ord' = "snd (confirm ?oc)"]
  have a: "snd (confirm ?oc) = ?oc" by blast
  from 2 atomic [where ord = ?op and ord' = "snd (ship ?op)"]
  have b: "snd (ship ?op) = ?op" by blast
  from 3 atomic [where ord = ?oc and ord' = "snd (deliver ?oc)"]
  have c: "snd (deliver ?oc) = ?oc" by blast
  from 4 atomic [where ord = ?ox and ord' = "snd (cancel ?ox)"]
  have d: "snd (cancel ?ox) = ?ox" by blast
  from 5 atomic [where ord = ?oc and ord' = "fst (snd (addItem 1 ?oc sample_heap))"
                 and item = 1 and h = sample_heap
                 and h' = "snd (snd (addItem 1 ?oc sample_heap))"]
  have e: "snd (addItem 1 ?oc sample_heap) = (?oc, sample_heap)"
    by (metis prod.collapse)
  from 6 atomic [where c = ?ca and c' = "snd (activate ?ca)"]
  have f: "snd (activate ?ca) = ?ca" by blast
  from 7 atomic [where c = ?ci and c' = "snd (deactivate ?ci)"]
  have g: "snd (deactivate ?ci) = ?ci" by blast
  from 8 atomic [where c = ?ca and c' = "snd (updateName [] ?ca)" and newName = "[]"]
  have h: "snd (updateName [] ?ca) = ?ca" by blast
  from a b c d e f g h show ?thesis by blast
qed

section \<open>Where the code leaves the taxonomy\<close>

text \<open>
  C4. Every violation raised in the core should be one of the five kinds of the taxonomy, a
  malformed input to a factory a ValidationError. \<open>CustomerId.create\<close> on the empty string
  (and on a string of spaces) throws a plain \<open>Error\<close> instead, which has no kind, where
  \<open>OrderId.create\<close> throws a ValidationError; \<open>assertCurrency\<close> on a string that is not a
  currency throws a plain \<open>Error\<close> too.
\<close>

theorem CustomerId_create_plain_Error:
  "CustomerId_create [] = Inl (Error ''CustomerId cannot be empty'')
   \<and> CustomerId_create ''   '' = Inl (Error ''CustomerId cannot be empty'')
   \<and> kind_of (Error ''CustomerId cannot be empty'') = None
   \<and> OrderId_create []
       = Inl (ValidationError ''OrderId'' [Failure ''value'' ''OrderId cannot be empty'' None])
   \<and> kind_of (ValidationError ''OrderId'' [Failure ''value'' ''OrderId cannot be empty'' None])
       = Some KValidation
   \<and> assertCurrency ''XXX''
       = Inl (Error ''Invalid currency: XXX. Valid currencies are: USD, EUR, GBP, JPY'')"
  by code_simp

section \<open>Sharing between an order and its callers\<close>

text \<open>
  C5. What the \<open>items\<close> getter returns, and what \<open>Order.create\<close> keeps, should be
  independent of the caller. The arrays are: the getter returns a new array. The objects in
  them are not. On the sample order the total is 40 EUR; after the caller sets the quantity
  of the first object of the returned array to 99 the order's own first item has quantity 99
  and its total is 1010 EUR, and the same happens when the caller assigns to the first object
  of the array it passed to \<open>create\<close>.
\<close>

theorem items_getter_shares_item_objects:
  "case Order_create sample_uuid 0 sample_email 0 sample_heap of
     (Inl e, h1) \<Rightarrow> False
   | (Inr ord, h1) \<Rightarrow>
       (let (a, h2) = Order_items ord h1
        in a \<noteq> items_ref ord
           \<and> calculateTotal ord h2 = Inr \<lparr>amount = Fin 40, currency = EUR\<rparr>
           \<and> map quantity (items_view ord h2) = [Fin 2, Fin 1]
           \<and> calculateTotal ord (set_quantity (arrs h2 a ! 0) (Fin 99) h2)
               = Inr \<lparr>amount = Fin 1010, currency = EUR\<rparr>
           \<and> map quantity (items_view ord (set_quantity (arrs h2 a ! 0) (Fin 99) h2))
               = [Fin 99, Fin 1]
           \<and> calculateTotal ord (set_quantity (arrs h1 0 ! 0) (Fin 99) h1)
               = Inr \<lparr>amount = Fin 1010, currency = EUR\<rparr>
           \<and> map quantity (items_view ord (set_quantity (arrs h1 0 ! 0) (Fin 99) h1))
               = [Fin 99, Fin 1])"
  by code_simp

section \<open>Duplicate products at creation\<close>

text \<open>
  C6. An order obtained from \<open>Order.create\<close> should have a non-empty item list in which
  each \<open>productId\<close> appears at most once. \<open>create\<close> checks only that the list is not
  empty: from a list of two objects with the same \<open>productId\<close> it returns an order that
  holds both.
\<close>

theorem create_keeps_duplicate_productIds:
  "case Order_create sample_uuid 0 sample_email 0 duplicate_heap of
     (Inl e, h1) \<Rightarrow> False
   | (Inr ord, h1) \<Rightarrow>
       status ord = PENDING
       \<and> map productId (items_view ord h1) = [''prod-1'', ''prod-1'']
       \<and> \<not> distinct (map productId (items_view ord h1))"
  by code_simp

section \<open>Adding an item\<close>

text \<open>What \<open>findIndex\<close> returns: \<open>-1\<close> when no element satisfies the predicate,
  otherwise the first index whose element does.\<close>

lemma findIndex_from_range:
  "findIndex_from i p xs = - 1
   \<or> (i \<le> findIndex_from i p xs \<and> findIndex_from i p xs < i + int (length xs))"
  by (induction xs arbitrary: i) (auto, force+)

lemma findIndex_from_none:
  "0 \<le> i \<Longrightarrow> (findIndex_from i p xs < 0) = (\<forall>x\<in>set xs. \<not> p x)"
proof (induction xs arbitrary: i)
  case Nil
  then show ?case by simp
next
  case (Cons x xs)
  then show ?case by simp
qed

lemma findIndex_from_first:
  "0 \<le> findIndex_from i p xs \<Longrightarrow> 0 \<le> i \<Longrightarrow>
     nat (findIndex_from i p xs - i) < length xs
     \<and> p (xs ! nat (findIndex_from i p xs - i))
     \<and> (\<forall>j < nat (findIndex_from i p xs - i). \<not> p (xs ! j))"
proof (induction xs arbitrary: i)
  case Nil
  then show ?case by simp
next
  case (Cons x xs)
  show ?case
  proof (cases "p x")
    case True
    then show ?thesis by simp
  next
    case False
    with Cons.prems have found: "0 \<le> findIndex_from (i + 1) p xs" and pos: "0 \<le> i + 1"
      by simp_all
    from Cons.IH [OF found pos] have ih:
      "nat (findIndex_from (i + 1) p xs - (i + 1)) < length xs"
      "p (xs ! nat (findIndex_from (i + 1) p xs - (i + 1)))"
      "\<forall>j < nat (findIndex_from (i + 1) p xs - (i + 1)). \<not> p (xs ! j)"
      by simp_all
    from findIndex_from_range [of "i + 1" p xs] found pos
    have ge: "i + 1 \<le> findIndex_from (i + 1) p xs" by auto
    then have shift: "nat (findIndex_from (i + 1) p xs - i)
        = Suc (nat (findIndex_from (i + 1) p xs - (i + 1)))"
      by simp
    have "\<forall>j < Suc (nat (findIndex_from (i + 1) p xs - (i + 1))). \<not> p ((x # xs) ! j)"
      using ih(3) False by (auto simp: less_Suc_eq_0_disj)
    with ih(1,2) shift False show ?thesis
      by simp
  qed
qed

lemma findIndex_first:
  assumes "0 \<le> findIndex p xs"
  shows "nat (findIndex p xs) < length xs" "p (xs ! nat (findIndex p xs))"
    "\<forall>j < nat (findIndex p xs). \<not> p (xs ! j)"
  using findIndex_from_first [of 0 p xs] assms by (simp_all add: findIndex_def)

lemma findIndex_none: "(findIndex p xs < 0) = (\<forall>x\<in>set xs. \<not> p x)"
  using findIndex_from_none [of 0 p xs] by (simp add: findIndex_def)

text \<open>
  C2, as amended. \<open>addItem\<close> on an order that is not PENDING fails with an
  InvalidStateError whose allowed-states hint is PENDING, and changes nothing. On a PENDING
  order, when some item has the \<open>productId\<close> of the new one, the quantity of the first such
  line becomes the double sum of its quantity and the new item's (their exact sum when both
  are integers and the sum is at most \<open>2 ^ 53\<close> in magnitude); the line keeps its unit price,
  product and name, the number of items is the same, and every line held by another object
  is unchanged. When no item has that \<open>productId\<close>, the item list is the old one with the
  new item appended at the end.
\<close>

theorem addItem_behaviour:
  "(status ord \<noteq> PENDING \<longrightarrow>
      addItem item ord h
        = (Inl (InvalidStateError ''Order'' (status_str (status ord)) ''add items''
                  (Some [''PENDING''])), ord, h))
   \<and> (status ord = PENDING
        \<and> (\<exists>x \<in> set (items_view ord h). productId x = productId (objs h item)) \<longrightarrow>
      (\<exists>k h'. addItem item ord h = (Inr (), ord, h')
         \<and> k < length (items_view ord h)
         \<and> productId (items_view ord h ! k) = productId (objs h item)
         \<and> (\<forall>j<k. productId (items_view ord h ! j) \<noteq> productId (objs h item))
         \<and> length (items_view ord h') = length (items_view ord h)
         \<and> quantity (items_view ord h' ! k)
             = num_add (quantity (items_view ord h ! k)) (quantity (objs h item))
         \<and> (\<forall>a b. quantity (items_view ord h ! k) = Fin (of_int a)
               \<and> quantity (objs h item) = Fin (of_int b) \<and> \<bar>a + b\<bar> \<le> 2 ^ 53 \<longrightarrow>
               quantity (items_view ord h' ! k) = Fin (of_int (a + b)))
         \<and> unitPrice (items_view ord h' ! k) = unitPrice (items_view ord h ! k)
         \<and> productId (items_view ord h' ! k) = productId (items_view ord h ! k)
         \<and> productName (items_view ord h' ! k) = productName (items_view ord h ! k)
         \<and> (\<forall>j < length (items_view ord h).
               arrs h (items_ref ord) ! j \<noteq> arrs h (items_ref ord) ! k \<longrightarrow>
               items_view ord h' ! j = items_view ord h ! j)))
   \<and> (status ord = PENDING
        \<and> (\<forall>x \<in> set (items_view ord h). productId x \<noteq> productId (objs h item)) \<longrightarrow>
      (\<exists>h'. addItem item ord h = (Inr (), ord, h')
         \<and> items_view ord h' = items_view ord h @ [objs h item]))"
proof (intro conjI impI)
  assume "status ord \<noteq> PENDING"
  then show "addItem item ord h
        = (Inl (InvalidStateError ''Order'' (status_str (status ord)) ''add items''
                  (Some [''PENDING''])), ord, h)"
    by (simp add: addItem_def)
next
  let ?its = "arrs h (items_ref ord)"
  let ?p = "\<lambda>i. productId (objs h i) = productId (objs h item)"
  assume a: "status ord = PENDING
        \<and> (\<forall>x \<in> set (items_view ord h). productId x \<noteq> productId (objs h item))"
  then have "\<forall>i \<in> set ?its. \<not> ?p i"
    by (simp add: items_view_def)
  then have "findIndex ?p ?its < 0"
    by (simp add: findIndex_none)
  with a have "addItem item ord h = (Inr (), ord, array_push (items_ref ord) item h)"
    by (simp add: addItem_def Let_def)
  moreover have "items_view ord (array_push (items_ref ord) item h)
      = items_view ord h @ [objs h item]"
    by (simp add: items_view_def array_push_def)
  ultimately show "\<exists>h'. addItem item ord h = (Inr (), ord, h')
         \<and> items_view ord h' = items_view ord h @ [objs h item]"
    by blast
next
  let ?its = "arrs h (items_ref ord)"
  let ?p = "\<lambda>i. productId (objs h i) = productId (objs h item)"
  let ?k = "nat (findIndex ?p ?its)"
  let ?h' = "set_quantity (?its ! ?k)
               (num_add (quantity (objs h (?its ! ?k))) (quantity (objs h item))) h"
  assume a: "status ord = PENDING
        \<and> (\<exists>x \<in> set (items_view ord h). productId x = productId (objs h item))"
  then have "\<not> (\<forall>i \<in> set ?its. \<not> ?p i)"
    by (simp add: items_view_def)
  then have "\<not> findIndex ?p ?its < 0"
    by (simp add: findIndex_none)
  then have found: "0 \<le> findIndex ?p ?its"
    by simp
  note first = findIndex_first [OF found]
  from a found have run: "addItem item ord h = (Inr (), ord, ?h')"
    by (simp add: addItem_def Let_def)
  have arrs': "arrs ?h' = arrs h"
    by (simp add: set_quantity_def)
  have len: "length (items_view ord ?h') = length (items_view ord h)"
    by (simp add: items_view_def arrs')
  have k_lt: "?k < length (items_view ord h)"
    using first(1) by (simp add: items_view_def)
  have at_k: "items_view ord h ! ?k = objs h (?its ! ?k)"
    using first(1) by (simp add: items_view_def)
  have at_k': "items_view ord ?h' ! ?k
      = (objs h (?its ! ?k))\<lparr>quantity :=
           num_add (quantity (objs h (?its ! ?k))) (quantity (objs h item))\<rparr>"
    using first(1) by (simp add: items_view_def arrs') (simp add: set_quantity_def)
  have exact: "\<forall>a b. quantity (items_view ord h ! ?k) = Fin (of_int a)
      \<and> quantity (objs h item) = Fin (of_int b) \<and> \<bar>a + b\<bar> \<le> 2 ^ 53 \<longrightarrow>
      quantity (items_view ord ?h' ! ?k) = Fin (of_int (a + b))"
  proof (intro allI impI)
    fix a b :: int
    assume ab: "quantity (items_view ord h ! ?k) = Fin (of_int a)
      \<and> quantity (objs h item) = Fin (of_int b) \<and> \<bar>a + b\<bar> \<le> 2 ^ 53"
    then have "\<bar>a + b\<bar> \<le> 2 ^ 53"
      by simp
    from round_double_int [OF this]
    have "round_double (of_int a + of_int b) = Fin (of_int a + of_int b)"
      by simp
    with ab show "quantity (items_view ord ?h' ! ?k) = Fin (of_int (a + b))"
      unfolding at_k' at_k by simp
  qed
  have before: "\<forall>j<?k. productId (items_view ord h ! j) \<noteq> productId (objs h item)"
    using first(1,3) by (simp add: items_view_def)
  have others: "\<forall>j < length (items_view ord h).
      ?its ! j \<noteq> ?its ! ?k \<longrightarrow> items_view ord ?h' ! j = items_view ord h ! j"
    by (simp add: items_view_def arrs') (simp add: set_quantity_def)
  from run k_lt first(2) before len at_k at_k' others exact
  show "\<exists>k h'. addItem item ord h = (Inr (), ord, h')
         \<and> k < length (items_view ord h)
         \<and> productId (items_view ord h ! k) = productId (objs h item)
         \<and> (\<forall>j<k. productId (items_view ord h ! j) \<noteq> productId (objs h item))
         \<and> length (items_view ord h') = length (items_view ord h)
         \<and> quantity (items_view ord h' ! k)
             = num_add (quantity (items_view ord h ! k)) (quantity (objs h item))
         \<and> (\<forall>a b. quantity (items_view ord h ! k) = Fin (of_int a)
               \<and> quantity (objs h item) = Fin (of_int b) \<and> \<bar>a + b\<bar> \<le> 2 ^ 53 \<longrightarrow>
               quantity (items_view ord h' ! k) = Fin (of_int (a + b)))
         \<and> unitPrice (items_view ord h' ! k) = unitPrice (items_view ord h ! k)
         \<and> productId (items_view ord h' ! k) = productId (items_view ord h ! k)
         \<and> productName (items_view ord h' ! k) = productName (items_view ord h ! k)
         \<and> (\<forall>j < length (items_view ord h).
               arrs h (items_ref ord) ! j \<noteq> arrs h (items_ref ord) ! k \<longrightarrow>
               items_view ord h' ! j = items_view ord h ! j)"
    by (intro exI [of _ ?k] exI [of _ ?h']) simp
qed

text \<open>
  The three cases on the sample store: a confirmed order; a pending order to which 3 more of
  \<open>prod-1\<close> are added (the object at reference 2), whose first line goes from 2 to 5; a
  pending order to which \<open>prod-3\<close> is added (the object at reference 3).
\<close>

theorem addItem_behaviour_witness:
  "addItem 3 (Order_reconstitute (OrderId sample_uuid) sample_email 0 CONFIRMED 0) sample_heap
     = (Inl (InvalidStateError ''Order'' ''CONFIRMED'' ''add items'' (Some [''PENDING''])),
        Order_reconstitute (OrderId sample_uuid) sample_email 0 CONFIRMED 0, sample_heap)
   \<and> (\<exists>h'. addItem 2 (Order_reconstitute (OrderId sample_uuid) sample_email 0 PENDING 0)
              sample_heap
            = (Inr (), Order_reconstitute (OrderId sample_uuid) sample_email 0 PENDING 0, h')
         \<and> length (items_view (Order_reconstitute (OrderId sample_uuid) sample_email 0 PENDING 0)
                     h') = 2
         \<and> quantity (items_view
                (Order_reconstitute (OrderId sample_uuid) sample_email 0 PENDING 0)
                sample_heap ! 0) = Fin 2
         \<and> quantity (objs sample_heap 2) = Fin 3
         \<and> quantity (items_view
                (Order_reconstitute (OrderId sample_uuid) sample_email 0 PENDING 0) h' ! 0)
            = Fin 5
         \<and> unitPrice (items_view
                (Order_reconstitute (OrderId sample_uuid) sample_email 0 PENDING 0) h' ! 0)
            = \<lparr>amount = Fin 10, currency = EUR\<rparr>)
   \<and> (\<exists>h'. addItem 3 (Order_reconstitute (OrderId sample_uuid) sample_email 0 PENDING 0)
              sample_heap
            = (Inr (), Order_reconstitute (OrderId sample_uuid) sample_email 0 PENDING 0, h')
         \<and> items_view (Order_reconstitute (OrderId sample_uuid) sample_email 0 PENDING 0) h'
            = [item1, item2, item3])"
proof -
  let ?oc = "Order_reconstitute (OrderId sample_uuid) sample_email 0 CONFIRMED 0"
  let ?op = "Order_reconstitute (OrderId sample_uuid) sample_email 0 PENDING 0"
  have view: "items_view ?op sample_heap = [item1, item2]"
    by (simp add: items_view_def Order_reconstitute_def sample_heap_def)
  have objs: "objs sample_heap 2 = item1\<lparr>quantity := Fin 3\<rparr>" "objs sample_heap 3 = item3"
    by (simp_all add: sample_heap_def)
  have not_pending: "status ?oc \<noteq> PENDING"
    by (simp add: Order_reconstitute_def)
  have present: "status ?op = PENDING
      \<and> (\<exists>x \<in> set (items_view ?op sample_heap). productId x = productId (objs sample_heap 2))"
    by (simp add: view objs) (simp add: Order_reconstitute_def item1_def)
  have absent: "status ?op = PENDING
      \<and> (\<forall>x \<in> set (items_view ?op sample_heap). productId x \<noteq> productId (objs sample_heap 3))"
    by (simp add: view objs) (simp add: Order_reconstitute_def item1_def item2_def item3_def)
  have q0: "quantity (items_view ?op sample_heap ! 0) = Fin (of_int 2)"
    and q2: "quantity (objs sample_heap 2) = Fin (of_int 3)"
    and p0: "unitPrice (items_view ?op sample_heap ! 0) = \<lparr>amount = Fin 10, currency = EUR\<rparr>"
    and other: "productId (items_view ?op sample_heap ! 1) \<noteq> productId (objs sample_heap 2)"
    by (simp_all add: view objs item1_def item2_def)
  from addItem_behaviour [of ?oc 3 sample_heap] not_pending
  have a: "addItem 3 ?oc sample_heap
     = (Inl (InvalidStateError ''Order'' ''CONFIRMED'' ''add items'' (Some [''PENDING''])),
        ?oc, sample_heap)"
    by (simp add: Order_reconstitute_def)
  from addItem_behaviour [of ?op 2 sample_heap] present
  obtain k h' where run: "addItem 2 ?op sample_heap = (Inr (), ?op, h')"
    and k: "k < length (items_view ?op sample_heap)"
      "productId (items_view ?op sample_heap ! k) = productId (objs sample_heap 2)"
    and len: "length (items_view ?op h') = length (items_view ?op sample_heap)"
    and exact: "\<forall>a b. quantity (items_view ?op sample_heap ! k) = Fin (of_int a)
               \<and> quantity (objs sample_heap 2) = Fin (of_int b) \<and> \<bar>a + b\<bar> \<le> 2 ^ 53 \<longrightarrow>
               quantity (items_view ?op h' ! k) = Fin (of_int (a + b))"
    and price: "unitPrice (items_view ?op h' ! k) = unitPrice (items_view ?op sample_heap ! k)"
    by blast
  from k(1) have "k = 0 \<or> k = 1"
    by (auto simp: view)
  with k(2) other have k0: "k = 0"
    by auto
  from exact [rule_format, of 2 3] q0 q2 have "quantity (items_view ?op h' ! 0) = Fin 5"
    by (simp add: k0)
  with run len price p0 q0 q2
  have b: "\<exists>h'. addItem 2 ?op sample_heap = (Inr (), ?op, h')
         \<and> length (items_view ?op h') = 2
         \<and> quantity (items_view ?op sample_heap ! 0) = Fin 2
         \<and> quantity (objs sample_heap 2) = Fin 3
         \<and> quantity (items_view ?op h' ! 0) = Fin 5
         \<and> unitPrice (items_view ?op h' ! 0) = \<lparr>amount = Fin 10, currency = EUR\<rparr>"
    by (simp add: k0 view)
  from addItem_behaviour [of ?op 3 sample_heap] absent
  have c: "\<exists>h'. addItem 3 ?op sample_heap = (Inr (), ?op, h')
         \<and> items_view ?op h' = [item1, item2, item3]"
    unfolding view objs by simp
  from a b c show ?thesis
    by blast
qed

text \<open>
  C2 as stated fails where the sum is not a double: a line of quantity \<open>2 ^ 53\<close> to which
  one more of the same product is added keeps the quantity \<open>2 ^ 53\<close>.
\<close>

theorem addItem_sum_is_rounded:
  "status (Order_reconstitute (OrderId sample_uuid) sample_email 0 PENDING 0) = PENDING
   \<and> productId (objs big_heap 2)
       = productId (items_view (Order_reconstitute (OrderId sample_uuid) sample_email 0 PENDING 0)
                     big_heap ! 0)
   \<and> quantity (items_view (Order_reconstitute (OrderId sample_uuid) sample_email 0 PENDING 0)
                 big_heap ! 0) = Fin 9007199254740992
   \<and> quantity (objs big_heap 2) = Fin 1
   \<and> fst (addItem 2 (Order_reconstitute (OrderId sample_uuid) sample_email 0 PENDING 0) big_heap)
       = Inr ()
   \<and> quantity (items_view (Order_reconstitute (OrderId sample_uuid) sample_email 0 PENDING 0)
                 (snd (snd (addItem 2
                    (Order_reconstitute (OrderId sample_uuid) sample_email 0 PENDING 0)
                    big_heap))) ! 0)
       = Fin 9007199254740992
   \<and> quantity (items_view (Order_reconstitute (OrderId sample_uuid) sample_email 0 PENDING 0)
                 (snd (snd (addItem 2
                    (Order_reconstitute (OrderId sample_uuid) sample_email 0 PENDING 0)
                    big_heap))) ! 0)
       \<noteq> Fin 9007199254740993"
  by code_simp

section \<open>The total of an order\<close>

lemma floor_half: "\<lfloor>1 / 2 :: rat\<rfloor> = 0"
  by (rule floor_unique) simp_all

lemma foldl_add_line_Inl: "foldl add_line (Inl e) its = Inl e"
  by (induction its) (simp_all add: add_line_def)

lemma total_loop_foldl: "total_loop rest tot = foldl add_line (Inr tot) rest"
proof (induction rest arbitrary: tot)
  case Nil
  then show ?case by simp
next
  case (Cons item rest)
  show ?case
  proof (cases "line_total item")
    case (Inl e)
    then have "add_line (Inr tot) item = Inl e"
      by (simp add: add_line_def)
    with Inl show ?thesis
      by (simp add: line_total_def foldl_add_line_Inl)
  next
    case (Inr p)
    then have step: "add_line (Inr tot) item = Price_add tot p"
      by (simp add: add_line_def)
    show ?thesis
    proof (cases "Price_add tot p")
      case (Inl e)
      with Inr step show ?thesis
        by (simp add: line_total_def foldl_add_line_Inl)
    next
      case (Inr t)
      with \<open>line_total item = Inr p\<close> step Cons.IH [of t] show ?thesis
        by (simp add: line_total_def)
    qed
  qed
qed

lemma calculateTotal_fold:
  assumes "items_view ord h \<noteq> []"
  shows "calculateTotal ord h = fold_total (items_view ord h)"
proof -
  from assms obtain x xs where v: "map (objs h) (arrs h (items_ref ord)) = x # xs"
    by (cases "items_view ord h") (auto simp: items_view_def)
  show ?thesis
    unfolding calculateTotal_def fold_total_def items_view_def v Let_def
    by (cases "line_total x")
       (simp_all add: line_total_def total_loop_foldl foldl_add_line_Inl)
qed

lemma calculateTotal_empty:
  assumes "items_view ord h = []"
  shows "calculateTotal ord h = Inr \<lparr>amount = Fin 0, currency = USD\<rparr>"
  using assms
  by (simp add: calculateTotal_def items_view_def Price_create_def round_double_def floor_half)

lemma Price_create_kind: "Price_create a c = Inl e \<Longrightarrow> kind_of e = Some KValidation"
  by (auto simp: Price_create_def ValidationError_single_def Let_def split: if_splits)

lemma Price_multiply_kind: "Price_multiply p q = Inl e \<Longrightarrow> kind_of e = Some KValidation"
  by (auto simp: Price_multiply_def ValidationError_single_def dest: Price_create_kind
           split: if_splits)

lemma Price_add_kind: "Price_add p q = Inl e \<Longrightarrow> kind_of e \<noteq> None"
  by (auto simp: Price_add_def dest: Price_create_kind split: if_splits)

lemma total_loop_kind: "total_loop rest tot = Inl e \<Longrightarrow> kind_of e \<noteq> None"
proof (induction rest arbitrary: tot)
  case Nil
  then show ?case by simp
next
  case (Cons item rest)
  then show ?case
    by (auto split: sum.splits dest: Price_multiply_kind Price_add_kind)
qed

lemma calculateTotal_kind: "calculateTotal ord h = Inl e \<Longrightarrow> kind_of e \<noteq> None"
  by (auto simp: calculateTotal_def Let_def split: if_splits sum.splits
           dest: Price_create_kind Price_multiply_kind total_loop_kind)

lemma Price_create_currency: "Price_create a c = Inr r \<Longrightarrow> currency r = c"
  by (auto simp: Price_create_def Let_def split: if_splits)

lemma Price_multiply_currency: "Price_multiply p q = Inr r \<Longrightarrow> currency r = currency p"
  by (auto simp: Price_multiply_def split: if_splits dest: Price_create_currency)

lemma Price_add_currency:
  "Price_add p q = Inr r \<Longrightarrow> currency r = currency p \<and> currency q = currency p"
  by (auto simp: Price_add_def split: if_splits dest: Price_create_currency)

lemma foldl_add_line_currency:
  "foldl add_line (Inr t0) xs = Inr t \<Longrightarrow> currency t = currency t0"
proof (induction xs arbitrary: t0)
  case Nil
  then show ?case by simp
next
  case (Cons x xs)
  show ?case
  proof (cases "add_line (Inr t0) x")
    case (Inl e)
    with Cons.prems show ?thesis
      by (simp add: foldl_add_line_Inl)
  next
    case (Inr t1)
    then have "currency t1 = currency t0"
      by (auto simp: add_line_def split: sum.splits dest: Price_add_currency)
    with Cons.IH [of t1 ] Cons.prems Inr show ?thesis
      by simp
  qed
qed

lemma fold_total_currency:
  assumes "fold_total xs = Inr t"
  shows "currency t = currency (unitPrice (xs ! 0))"
proof (cases "line_total (xs ! 0)")
  case (Inl e)
  with assms show ?thesis
    by (simp add: fold_total_def foldl_add_line_Inl)
next
  case (Inr p)
  with assms foldl_add_line_currency [of p "drop 1 xs" t]
    Price_multiply_currency [of "unitPrice (xs ! 0)" "quantity (xs ! 0)" p]
  show ?thesis
    by (simp add: fold_total_def line_total_def)
qed

lemma add_line_kind:
  assumes "add_line (Inr t) x = Inl e"
  shows "kind_of e = Some KValidation \<or> kind_of e = Some KBusinessRuleViolation"
proof (cases "line_total x")
  case (Inl e')
  with assms Price_multiply_kind [of "unitPrice x" "quantity x" e] show ?thesis
    by (simp add: add_line_def line_total_def)
next
  case (Inr p)
  with assms have "Price_add t p = Inl e"
    by (simp add: add_line_def)
  then show ?thesis
    by (auto simp: Price_add_def split: if_splits dest: Price_create_kind)
qed

lemma add_line_same_currency_kind:
  assumes "add_line (Inr t) x = Inl e" "currency (unitPrice x) = currency t"
  shows "kind_of e = Some KValidation"
proof (cases "line_total x")
  case (Inl e')
  with assms Price_multiply_kind [of "unitPrice x" "quantity x" e] show ?thesis
    by (simp add: add_line_def line_total_def)
next
  case (Inr p)
  with assms(1) have add: "Price_add t p = Inl e"
    by (simp add: add_line_def)
  from Inr have "currency p = currency (unitPrice x)"
    by (simp add: line_total_def Price_multiply_currency)
  with add assms(2) show ?thesis
    by (auto simp: Price_add_def split: if_splits dest: Price_create_kind)
qed

lemma foldl_same_currency_kind:
  assumes "foldl add_line (Inr t0) xs = Inl e"
    and "\<forall>x \<in> set xs. currency (unitPrice x) = currency t0"
  shows "kind_of e = Some KValidation"
  using assms
proof (induction xs arbitrary: t0)
  case Nil
  then show ?case by simp
next
  case (Cons x xs)
  show ?case
  proof (cases "add_line (Inr t0) x")
    case (Inl e')
    with Cons.prems(1) have "e' = e"
      by (simp add: foldl_add_line_Inl)
    with Inl Cons.prems(2) add_line_same_currency_kind [of t0 x e] show ?thesis
      by simp
  next
    case (Inr t1)
    with foldl_add_line_currency [of t0 "[x]" t1] have "currency t1 = currency t0"
      by simp
    with Cons.IH [of t1] Cons.prems Inr show ?thesis
      by simp
  qed
qed

lemma fold_total_same_currency_kind:
  assumes "fold_total xs = Inl e"
    and "\<forall>x \<in> set xs. currency (unitPrice x) = currency (unitPrice (xs ! 0))"
  shows "kind_of e = Some KValidation"
proof (cases "line_total (xs ! 0)")
  case (Inl e')
  with assms(1) have "e' = e"
    by (simp add: fold_total_def foldl_add_line_Inl)
  with Inl Price_multiply_kind [of "unitPrice (xs ! 0)" "quantity (xs ! 0)" e] show ?thesis
    by (simp add: line_total_def)
next
  case (Inr p)
  then have "currency p = currency (unitPrice (xs ! 0))"
    by (simp add: line_total_def Price_multiply_currency)
  with assms(2) have "\<forall>x \<in> set (drop 1 xs). currency (unitPrice x) = currency p"
    by (auto dest: in_set_dropD)
  with foldl_same_currency_kind [of p "drop 1 xs" e] assms(1) Inr show ?thesis
    by (simp add: fold_total_def)
qed

text \<open>How a list of mixed currencies splits at the first item of another currency.\<close>

lemma mixed_split:
  assumes "mixed_currencies its"
  obtains x rest where "its = before_other its @ x # rest" "first_other its = Some x"
    "\<not> same_currency (its ! 0) x" "before_other its \<noteq> []" "before_other its ! 0 = its ! 0"
    "\<forall>y \<in> set (before_other its). same_currency (its ! 0) y"
proof -
  let ?P = "same_currency (its ! 0)"
  from assms obtain a as where its: "its = a # as"
    by (cases its) (auto simp: mixed_currencies_def)
  have "\<exists>y \<in> set its. \<not> ?P y"
  proof (rule ccontr)
    assume "\<not> (\<exists>y \<in> set its. \<not> ?P y)"
    then have "\<forall>y \<in> set its. currency (unitPrice y) = currency (unitPrice (its ! 0))"
      by (simp add: same_currency_def)
    with assms show False
      unfolding mixed_currencies_def by metis
  qed
  then have "dropWhile ?P its \<noteq> []"
    by (simp add: dropWhile_eq_Nil_conv)
  then obtain x rest where dw: "dropWhile ?P its = x # rest"
    by (cases "dropWhile ?P its") auto
  then have notP: "\<not> ?P x"
    using hd_dropWhile [of ?P its] by simp
  have split: "its = takeWhile ?P its @ x # rest"
    using takeWhile_dropWhile_id [of ?P its] dw by simp
  have first: "?P a"
    using its by (simp add: same_currency_def)
  then have tw: "takeWhile ?P its = a # takeWhile ?P as"
    using its by simp
  show thesis
  proof (rule that [of x rest])
    show "its = before_other its @ x # rest"
      using split by (simp add: before_other_def)
    show "first_other its = Some x"
      by (simp add: first_other_def dw)
    show "\<not> ?P x"
      by (rule notP)
    show "before_other its \<noteq> []"
      by (simp add: before_other_def tw)
    show "before_other its ! 0 = its ! 0"
      using its by (simp add: before_other_def same_currency_def)
    show "\<forall>y \<in> set (before_other its). ?P y"
      by (auto simp: before_other_def dest: set_takeWhileD)
  qed
qed

lemma fold_total_split:
  assumes "pre \<noteq> []"
  shows "fold_total (pre @ x # rest) = foldl add_line (add_line (fold_total pre) x) rest"
  using assms by (cases pre) (simp_all add: fold_total_def)

lemma calculateTotal_mixed:
  assumes "mixed_currencies (items_view ord h)"
  obtains x where "first_other (items_view ord h) = Some x"
    "calculateTotal ord h = add_line (fold_total (before_other (items_view ord h))) x"
    "\<exists>e. calculateTotal ord h = Inl e"
    "(\<exists>e. calculateTotal ord h = Inl e \<and> kind_of e = Some KBusinessRuleViolation)
       = (\<exists>t p. fold_total (before_other (items_view ord h)) = Inr t \<and> line_total x = Inr p)"
proof -
  let ?v = "items_view ord h"
  let ?pre = "before_other ?v"
  from mixed_split [OF assms] obtain x rest where
    split: "?v = ?pre @ x # rest" and fo: "first_other ?v = Some x"
    and other: "\<not> same_currency (?v ! 0) x" and ne: "?pre \<noteq> []"
    and hd: "?pre ! 0 = ?v ! 0" and same: "\<forall>y \<in> set ?pre. same_currency (?v ! 0) y"
    by blast
  from split ne have "?v \<noteq> []"
    by auto
  then have "calculateTotal ord h = fold_total ?v"
    by (rule calculateTotal_fold)
  also have "\<dots> = fold_total (?pre @ x # rest)"
    using split by simp
  also have "\<dots> = foldl add_line (add_line (fold_total ?pre) x) rest"
    using ne by (rule fold_total_split)
  finally have calc: "calculateTotal ord h = foldl add_line (add_line (fold_total ?pre) x) rest" .
  have step: "(\<exists>e. add_line (fold_total ?pre) x = Inl e)
      \<and> ((\<exists>e. add_line (fold_total ?pre) x = Inl e \<and> kind_of e = Some KBusinessRuleViolation)
           = (\<exists>t p. fold_total ?pre = Inr t \<and> line_total x = Inr p))"
  proof (cases "fold_total ?pre")
    case (Inl e)
    from same hd have "\<forall>y \<in> set ?pre. currency (unitPrice y) = currency (unitPrice (?pre ! 0))"
      by (simp add: same_currency_def)
    from fold_total_same_currency_kind [OF Inl this] Inl show ?thesis
      by (simp add: add_line_def)
  next
    case (Inr t)
    from fold_total_currency [OF Inr] hd
    have ct: "currency t = currency (unitPrice (?v ! 0))"
      by simp
    show ?thesis
    proof (cases "line_total x")
      case (Inl e)
      with Price_multiply_kind [of "unitPrice x" "quantity x" e] Inr show ?thesis
        by (simp add: add_line_def line_total_def)
    next
      case p: (Inr p)
      then have "currency p = currency (unitPrice x)"
        by (simp add: line_total_def Price_multiply_currency)
      with other ct have "currency t \<noteq> currency p"
        by (simp add: same_currency_def)
      with Inr p show ?thesis
        by (simp add: add_line_def Price_add_def)
    qed
  qed
  then obtain e where e: "add_line (fold_total ?pre) x = Inl e"
    by blast
  with calc have total: "calculateTotal ord h = add_line (fold_total ?pre) x"
    by (simp add: foldl_add_line_Inl)
  show thesis
  proof (rule that [of x])
    show "first_other ?v = Some x"
      by (rule fo)
    show "calculateTotal ord h = add_line (fold_total ?pre) x"
      by (rule total)
    show "\<exists>e. calculateTotal ord h = Inl e"
      using total e by simp
    show "(\<exists>e. calculateTotal ord h = Inl e \<and> kind_of e = Some KBusinessRuleViolation)
       = (\<exists>t p. fold_total ?pre = Inr t \<and> line_total x = Inr p)"
      using step total by simp
  qed
qed


lemma Price_add_kinds:
  "Price_add p q = Inl e
   \<Longrightarrow> kind_of e = Some KValidation \<or> kind_of e = Some KBusinessRuleViolation"
  by (auto simp: Price_add_def dest: Price_create_kind split: if_splits)

lemma total_loop_kinds:
  "total_loop rest tot = Inl e
   \<Longrightarrow> kind_of e = Some KValidation \<or> kind_of e = Some KBusinessRuleViolation"
proof (induction rest arbitrary: tot)
  case Nil
  then show ?case by simp
next
  case (Cons item rest)
  then show ?case
    by (auto split: sum.splits dest: Price_multiply_kind Price_add_kinds)
qed

lemma calculateTotal_kinds:
  "calculateTotal ord h = Inl e
   \<Longrightarrow> kind_of e = Some KValidation \<or> kind_of e = Some KBusinessRuleViolation"
  by (auto simp: calculateTotal_def Let_def split: if_splits sum.splits
           dest: Price_create_kind Price_multiply_kind total_loop_kinds)

text \<open>
  C3, as amended. For an order with at least one item, \<open>calculateTotal\<close> is the fold from
  the left that starts from the first item's unit price multiplied by its quantity and adds
  each later item's unit price multiplied by its quantity. When the items carry mixed
  currencies it fails, with the result of adding the first item of another currency to the
  total of the items before it: a BusinessRuleViolationError exactly when that total and that
  item's own product are computed without error, and otherwise the ValidationError that
  \<open>multiply\<close> or \<open>create\<close> raised first. It raises no other kind of error. For an order
  with no items it returns zero USD. For the sample order (2 at 10 EUR, 1 at 20 EUR) it
  returns 40 EUR.
\<close>

theorem calculateTotal_spec:
  "(items_view ord h \<noteq> [] \<longrightarrow> calculateTotal ord h = fold_total (items_view ord h))
   \<and> (mixed_currencies (items_view ord h) \<longrightarrow>
        (\<exists>x. first_other (items_view ord h) = Some x
           \<and> calculateTotal ord h
               = add_line (fold_total (before_other (items_view ord h))) x
           \<and> (\<exists>e. calculateTotal ord h = Inl e)
           \<and> (\<exists>e. calculateTotal ord h = Inl e \<and> kind_of e = Some KBusinessRuleViolation)
               = (\<exists>t p. fold_total (before_other (items_view ord h)) = Inr t
                    \<and> line_total x = Inr p)))
   \<and> (\<forall>e. calculateTotal ord h = Inl e \<longrightarrow>
          kind_of e = Some KValidation \<or> kind_of e = Some KBusinessRuleViolation)
   \<and> (items_view ord h = [] \<longrightarrow>
        calculateTotal ord h = Inr \<lparr>amount = Fin 0, currency = USD\<rparr>)
   \<and> (case Order_create sample_uuid 0 sample_email 0 sample_heap of
         (Inl e, h1) \<Rightarrow> False
       | (Inr ord1, h1) \<Rightarrow>
           calculateTotal ord1 h1 = Inr \<lparr>amount = Fin 40, currency = EUR\<rparr>)"
proof -
  have sample: "case Order_create sample_uuid 0 sample_email 0 sample_heap of
         (Inl e, h1) \<Rightarrow> False
       | (Inr ord1, h1) \<Rightarrow>
           calculateTotal ord1 h1 = Inr \<lparr>amount = Fin 40, currency = EUR\<rparr>"
    by code_simp
  have mixed: "mixed_currencies (items_view ord h) \<longrightarrow>
        (\<exists>x. first_other (items_view ord h) = Some x
           \<and> calculateTotal ord h
               = add_line (fold_total (before_other (items_view ord h))) x
           \<and> (\<exists>e. calculateTotal ord h = Inl e)
           \<and> (\<exists>e. calculateTotal ord h = Inl e \<and> kind_of e = Some KBusinessRuleViolation)
               = (\<exists>t p. fold_total (before_other (items_view ord h)) = Inr t
                    \<and> line_total x = Inr p))"
  proof
    assume "mixed_currencies (items_view ord h)"
    from calculateTotal_mixed [OF this] show "\<exists>x. first_other (items_view ord h) = Some x
           \<and> calculateTotal ord h
               = add_line (fold_total (before_other (items_view ord h))) x
           \<and> (\<exists>e. calculateTotal ord h = Inl e)
           \<and> (\<exists>e. calculateTotal ord h = Inl e \<and> kind_of e = Some KBusinessRuleViolation)
               = (\<exists>t p. fold_total (before_other (items_view ord h)) = Inr t
                    \<and> line_total x = Inr p)"
      by metis
  qed
  from sample mixed calculateTotal_fold [of ord h] calculateTotal_kinds [of ord h]
    calculateTotal_empty [of ord h]
  show ?thesis
    by blast
qed

text \<open>
  The sample order, whose fold is 40 EUR; the same order with the second item in USD, where
  the items before it total 20 EUR and the error is the BusinessRuleViolationError; the order
  whose first quantity is 3/2, where it is not; an order whose array is empty.
\<close>

theorem calculateTotal_spec_witness:
  "calculateTotal (Order_reconstitute (OrderId sample_uuid) sample_email 0 PENDING 0)
     sample_heap
     = fold_total [item1, item2]
   \<and> fold_total [item1, item2] = Inr \<lparr>amount = Fin 40, currency = EUR\<rparr>
   \<and> mixed_currencies
       (items_view (Order_reconstitute (OrderId sample_uuid) sample_email 0 PENDING 0)
          mixed_heap)
   \<and> fold_total
       (before_other
          (items_view (Order_reconstitute (OrderId sample_uuid) sample_email 0 PENDING 0)
             mixed_heap))
     = Inr \<lparr>amount = Fin 20, currency = EUR\<rparr>
   \<and> (\<exists>e. calculateTotal (Order_reconstitute (OrderId sample_uuid) sample_email 0 PENDING 0)
             mixed_heap = Inl e
          \<and> kind_of e = Some KBusinessRuleViolation)
   \<and> mixed_currencies
       (items_view (Order_reconstitute (OrderId sample_uuid) sample_email 0 PENDING 0)
          fractional_heap)
   \<and> \<not> (\<exists>e. calculateTotal (Order_reconstitute (OrderId sample_uuid) sample_email 0 PENDING 0)
               fractional_heap = Inl e
            \<and> kind_of e = Some KBusinessRuleViolation)
   \<and> calculateTotal (Order_reconstitute (OrderId sample_uuid) sample_email 5 PENDING 0)
       sample_heap
     = Inr \<lparr>amount = Fin 0, currency = USD\<rparr>"
proof -
  let ?op = "Order_reconstitute (OrderId sample_uuid) sample_email 0 PENDING 0"
  let ?oe = "Order_reconstitute (OrderId sample_uuid) sample_email 5 PENDING 0"
  let ?usd = "item2\<lparr>unitPrice := \<lparr>amount = Fin 20, currency = USD\<rparr>\<rparr>"
  have view: "items_view ?op sample_heap = [item1, item2]"
    by (simp add: items_view_def Order_reconstitute_def sample_heap_def)
  have nonempty: "items_view ?op sample_heap \<noteq> []"
    by (simp add: view)
  have fold: "fold_total [item1, item2] = Inr \<lparr>amount = Fin 40, currency = EUR\<rparr>"
    by code_simp
  have mixed: "mixed_currencies (items_view ?op mixed_heap)"
    by code_simp
  have other: "first_other (items_view ?op mixed_heap) = Some ?usd"
    by code_simp
  have before: "fold_total (before_other (items_view ?op mixed_heap))
      = Inr \<lparr>amount = Fin 20, currency = EUR\<rparr>"
    by code_simp
  have line: "line_total ?usd = Inr \<lparr>amount = Fin 20, currency = USD\<rparr>"
    by code_simp
  have mixed': "mixed_currencies (items_view ?op fractional_heap)"
    by code_simp
  have before': "fold_total (before_other (items_view ?op fractional_heap))
      = Inl (ValidationError ''Price''
               [Failure ''quantity'' ''Must be a positive integer'' (Some (VNum (Fin (3 / 2))))])"
    by code_simp
  have empty: "items_view ?oe sample_heap = []"
    by (simp add: items_view_def Order_reconstitute_def sample_heap_def)
  from calculateTotal_spec [of ?op sample_heap] nonempty
  have a: "calculateTotal ?op sample_heap = fold_total [item1, item2]"
    by (simp add: view)
  from calculateTotal_spec [of ?op mixed_heap] mixed obtain x where
    x: "first_other (items_view ?op mixed_heap) = Some x"
    and iff: "(\<exists>e. calculateTotal ?op mixed_heap = Inl e
                \<and> kind_of e = Some KBusinessRuleViolation)
        = (\<exists>t p. fold_total (before_other (items_view ?op mixed_heap)) = Inr t
             \<and> line_total x = Inr p)"
    by blast
  from x other have "x = ?usd"
    by simp
  with iff before line
  have b: "\<exists>e. calculateTotal ?op mixed_heap = Inl e \<and> kind_of e = Some KBusinessRuleViolation"
    by blast
  from calculateTotal_spec [of ?op fractional_heap] mixed' obtain y where
    iff': "(\<exists>e. calculateTotal ?op fractional_heap = Inl e
                \<and> kind_of e = Some KBusinessRuleViolation)
        = (\<exists>t p. fold_total (before_other (items_view ?op fractional_heap)) = Inr t
             \<and> line_total y = Inr p)"
    by blast
  have c: "\<not> (\<exists>e. calculateTotal ?op fractional_heap = Inl e
      \<and> kind_of e = Some KBusinessRuleViolation)"
    unfolding iff' before' by simp
  from calculateTotal_spec [of ?oe sample_heap] empty
  have d: "calculateTotal ?oe sample_heap = Inr \<lparr>amount = Fin 0, currency = USD\<rparr>"
    by blast
  from a fold mixed before b mixed' c d show ?thesis
    by blast
qed

text \<open>
  C3 as stated fails where \<open>multiply\<close> rejects a quantity before any \<open>add\<close>: with the
  quantity 3/2 on the first item and the second item in USD, the items carry mixed currencies
  and the error is a ValidationError.
\<close>

theorem calculateTotal_mixed_ValidationError:
  "mixed_currencies
     (items_view (Order_reconstitute (OrderId sample_uuid) sample_email 0 PENDING 0)
        fractional_heap)
   \<and> calculateTotal (Order_reconstitute (OrderId sample_uuid) sample_email 0 PENDING 0)
       fractional_heap
     = Inl (ValidationError ''Price''
              [Failure ''quantity'' ''Must be a positive integer'' (Some (VNum (Fin (3 / 2))))])
   \<and> kind_of (ValidationError ''Price''
                [Failure ''quantity'' ''Must be a positive integer''
                   (Some (VNum (Fin (3 / 2))))])
     = Some KValidation"
  by code_simp

section \<open>The amount of a price\<close>

text \<open>The largest double is a double, and a hundred times it is beyond every double.\<close>

lemma max_double_is_double: "round_double max_double = Fin max_double"
proof -
  have "max_double = of_int (2 ^ 53 - 1) * pow2 971"
    by (simp add: max_double_def pow2_def)
  with round_double_representable [of "2 ^ 53 - 1" 971] show ?thesis
    by simp
qed

lemma max_double_times_100: "round_double (max_double * 100) = PosInfinity"
proof -
  have "pow2 1024 = 2 ^ 53 * (2 ^ 971 :: rat)"
    by (simp add: pow2_def)
  also have "\<dots> \<le> ((2 ^ 53 - 1) * 100) * 2 ^ 971"
    by (intro mult_right_mono) simp_all
  also have "\<dots> = \<bar>max_double * 100\<bar>"
    by (simp add: max_double_def)
  finally have "pow2 1024 \<le> \<bar>max_double * 100\<bar>" .
  from round_double_overflow [OF this] show ?thesis
    by (simp add: max_double_def)
qed

text \<open>
  C7. \<open>Price.create\<close> fails, with a ValidationError, exactly when the amount is not
  finite or is negative. For every other amount the returned amount should be finite, with
  two decimals, the amount rounded half-up at the cent. It is not: whenever the product of
  the amount and 100 overflows, the returned amount is Infinity; and the amount 0.015, a
  double below 15/1000, comes back as the double of 0.02, because its product with 100 is
  rounded to 1.5 before \<open>Math.round\<close> sees it.
\<close>

theorem Price_create_overflow:
  "(\<exists>e. Price_create amt cur = Inl e) = (\<not> Number_isFinite amt \<or> num_lt amt (Fin 0))
   \<and> (\<forall>e. Price_create amt cur = Inl e \<longrightarrow> kind_of e = Some KValidation)
   \<and> (Number_isFinite amt \<and> \<not> num_lt amt (Fin 0)
        \<and> \<not> Number_isFinite (num_mul amt (Fin 100)) \<longrightarrow>
        Price_create amt cur = Inr \<lparr>amount = PosInfinity, currency = cur\<rparr>)
   \<and> round_double (1080863910568919 / 72057594037927936)
       = Fin (1080863910568919 / 72057594037927936)
   \<and> (1080863910568919 / 72057594037927936 :: rat) < 15 / 1000
   \<and> Price_create (Fin (1080863910568919 / 72057594037927936)) EUR
       = Inr \<lparr>amount = Fin (5764607523034235 / 288230376151711744), currency = EUR\<rparr>
   \<and> round_double (2 / 100) = Fin (5764607523034235 / 288230376151711744)"
proof -
  have fails: "(\<exists>e. Price_create amt cur = Inl e)
      = (\<not> Number_isFinite amt \<or> num_lt amt (Fin 0))"
    by (simp add: Price_create_def Let_def)
  have kind: "\<forall>e. Price_create amt cur = Inl e \<longrightarrow> kind_of e = Some KValidation"
    by (simp add: Price_create_kind)
  have overflow: "Number_isFinite amt \<and> \<not> num_lt amt (Fin 0)
        \<and> \<not> Number_isFinite (num_mul amt (Fin 100)) \<longrightarrow>
        Price_create amt cur = Inr \<lparr>amount = PosInfinity, currency = cur\<rparr>"
  proof
    assume a: "Number_isFinite amt \<and> \<not> num_lt amt (Fin 0)
        \<and> \<not> Number_isFinite (num_mul amt (Fin 100))"
    then obtain q where q: "amt = Fin q" "0 \<le> q"
      by (cases amt) (auto simp: not_less)
    with a have nf: "\<not> Number_isFinite (round_double (q * 100))"
      by simp
    have "round_double (q * 100) = PosInfinity"
    proof (cases "round_double (q * 100)")
      case (Fin r)
      with nf show ?thesis by simp
    next
      case PosInfinity
      then show ?thesis .
    next
      case NegInfinity
      with round_double_cases(3) [of "q * 100"] q(2) show ?thesis
        by simp
    next
      case NaN
      with round_double_cases(1) [of "q * 100"] show ?thesis
        by simp
    qed
    with a q show "Price_create amt cur = Inr \<lparr>amount = PosInfinity, currency = cur\<rparr>"
      by (simp add: Price_create_def)
  qed
  have is_double: "round_double (1080863910568919 / 72057594037927936)
       = Fin (1080863910568919 / 72057594037927936)"
    by code_simp
  have below: "(1080863910568919 / 72057594037927936 :: rat) < 15 / 1000"
    by simp
  have result: "Price_create (Fin (1080863910568919 / 72057594037927936)) EUR
       = Inr \<lparr>amount = Fin (5764607523034235 / 288230376151711744), currency = EUR\<rparr>"
    by code_simp
  have two_cents: "round_double (2 / 100) = Fin (5764607523034235 / 288230376151711744)"
    by code_simp
  from fails kind overflow is_double below result two_cents show ?thesis
    by blast
qed

text \<open>The largest double is finite and not negative; \<open>create\<close> returns Infinity for it.\<close>

theorem Price_create_overflow_witness:
  "Number_isFinite (Fin max_double)
   \<and> \<not> num_lt (Fin max_double) (Fin 0)
   \<and> round_double max_double = Fin max_double
   \<and> num_mul (Fin max_double) (Fin 100) = PosInfinity
   \<and> Price_create (Fin max_double) EUR = Inr \<lparr>amount = PosInfinity, currency = EUR\<rparr>"
proof -
  have finite: "Number_isFinite (Fin max_double)"
    by simp
  have positive: "\<not> num_lt (Fin max_double) (Fin 0)"
    by (simp add: max_double_def)
  have product: "num_mul (Fin max_double) (Fin 100) = PosInfinity"
    by (simp add: max_double_times_100)
  from Price_create_overflow [of "Fin max_double" EUR] finite positive product
  have "Price_create (Fin max_double) EUR = Inr \<lparr>amount = PosInfinity, currency = EUR\<rparr>"
    by simp
  with finite positive product max_double_is_double show ?thesis
    by blast
qed

section \<open>Email addresses\<close>

text \<open>\<open>rx_test\<close> decides the language of a regular expression.\<close>

inductive_simps rx_lang_Zero: "rx_lang Zero w"
inductive_simps rx_lang_One: "rx_lang One w"
inductive_simps rx_lang_Atom: "rx_lang (Atom P) w"
inductive_simps rx_lang_Alt: "rx_lang (Alt r s) w"
inductive_simps rx_lang_Times: "rx_lang (Times r s) w"

lemma nullable_iff: "nullable r \<longleftrightarrow> rx_lang r []"
  by (induction r)
     (auto simp: rx_lang_Zero rx_lang_One rx_lang_Atom rx_lang_Alt rx_lang_Times
           intro: lang_StarNil)

lemma deriv_complete:
  "rx_lang r s \<Longrightarrow> s = c # w \<Longrightarrow> rx_lang (deriv c r) w"
proof (induction r s arbitrary: w rule: rx_lang.induct)
  case lang_One
  then show ?case by simp
next
  case (lang_Atom P c')
  then show ?case by (auto intro: rx_lang.lang_One)
next
  case (lang_AltL r w' s)
  then show ?case by (auto intro: rx_lang.lang_AltL)
next
  case (lang_AltR s w' r)
  then show ?case by (auto intro: rx_lang.lang_AltR)
next
  case (lang_Times r u s v)
  show ?case
  proof (cases u)
    case Nil
    with lang_Times have "nullable r" "rx_lang (deriv c s) w"
      by (simp_all add: nullable_iff)
    then show ?thesis
      by (auto intro: rx_lang.lang_AltR)
  next
    case (Cons a u')
    with lang_Times have "rx_lang (deriv c r) u'" "w = u' @ v"
      by simp_all
    with lang_Times(2) show ?thesis
      by (auto intro: rx_lang.lang_AltL rx_lang.lang_Times)
  qed
next
  case (lang_StarNil r)
  then show ?case by simp
next
  case (lang_StarStep r u v)
  show ?case
  proof (cases u)
    case Nil
    with lang_StarStep show ?thesis by simp
  next
    case (Cons a u')
    with lang_StarStep have "rx_lang (deriv c r) u'" "w = u' @ v"
      by simp_all
    with lang_StarStep(2) show ?thesis
      by (auto intro: rx_lang.lang_Times)
  qed
qed

lemma deriv_sound: "rx_lang (deriv c r) w \<Longrightarrow> rx_lang r (c # w)"
proof (induction r arbitrary: w)
  case Zero
  then show ?case by (simp add: rx_lang_Zero)
next
  case One
  then show ?case by (simp add: rx_lang_Zero)
next
  case (Atom P)
  then show ?case
    by (auto simp: rx_lang_Zero rx_lang_One split: if_splits intro: lang_Atom)
next
  case (Alt r s)
  then show ?case
    by (auto simp: rx_lang_Alt)
next
  case (Times r s)
  from Times.prems consider
      (left) u v where "w = u @ v" "rx_lang (deriv c r) u" "rx_lang s v"
    | (right) "nullable r" "rx_lang (deriv c s) w"
    by (auto simp: rx_lang_Alt rx_lang_Times split: if_splits)
  then show ?case
  proof cases
    case left
    with Times.IH(1) [of u] have "rx_lang r (c # u)" by simp
    from this left(3) have "rx_lang (Times r s) ((c # u) @ v)"
      by (rule lang_Times)
    with left(1) show ?thesis by simp
  next
    case right
    with Times.IH(2) [of w] have "rx_lang r []" "rx_lang s (c # w)"
      by (simp_all add: nullable_iff)
    then have "rx_lang (Times r s) ([] @ c # w)"
      by (rule lang_Times)
    then show ?thesis by simp
  qed
next
  case (Star r)
  from Star.prems obtain u v where uv: "w = u @ v" "rx_lang (deriv c r) u" "rx_lang (Star r) v"
    by (auto simp: rx_lang_Times)
  with Star.IH [of u] have "rx_lang r (c # u)" by simp
  from this uv(3) have "rx_lang (Star r) ((c # u) @ v)"
    by (rule lang_StarStep)
  with uv(1) show ?case by simp
qed

lemma rx_test_iff: "rx_test r s \<longleftrightarrow> rx_lang r s"
proof (induction s arbitrary: r)
  case Nil
  then show ?case by (simp add: nullable_iff)
next
  case (Cons c s)
  then show ?case
    using deriv_sound [of c r s] deriv_complete [of r "c # s" c s] by auto
qed

lemma Star_Atom_all: "rx_lang r w \<Longrightarrow> r = Star (Atom P) \<Longrightarrow> \<forall>c \<in> set w. P c"
  by (induction r w rule: rx_lang.induct) (auto simp: rx_lang_Atom)

lemma all_Star_Atom: "\<forall>c \<in> set w. P c \<Longrightarrow> rx_lang (Star (Atom P)) w"
proof (induction w)
  case Nil
  then show ?case by (simp add: lang_StarNil)
next
  case (Cons a w)
  then have "rx_lang (Atom P) [a]" "rx_lang (Star (Atom P)) w"
    by (simp_all add: lang_Atom)
  then have "rx_lang (Star (Atom P)) ([a] @ w)"
    by (rule lang_StarStep)
  then show ?case by simp
qed

lemma Plus_Atom_iff: "rx_lang (Plus (Atom P)) w \<longleftrightarrow> w \<noteq> [] \<and> (\<forall>c \<in> set w. P c)"
proof
  assume "rx_lang (Plus (Atom P)) w"
  then obtain a v where "w = a # v" "P a" "rx_lang (Star (Atom P)) v"
    by (auto simp: Plus_def rx_lang_Times rx_lang_Atom)
  with Star_Atom_all [of "Star (Atom P)" v P] show "w \<noteq> [] \<and> (\<forall>c \<in> set w. P c)"
    by simp
next
  assume a: "w \<noteq> [] \<and> (\<forall>c \<in> set w. P c)"
  then obtain a v where w: "w = a # v"
    by (cases w) auto
  with a have "rx_lang (Atom P) [a]" "rx_lang (Star (Atom P)) v"
    by (simp_all add: lang_Atom all_Star_Atom)
  then have "rx_lang (Times (Atom P) (Star (Atom P))) ([a] @ v)"
    by (rule lang_Times)
  with w show "rx_lang (Plus (Atom P)) w"
    by (simp add: Plus_def)
qed

lemma lit_iff: "rx_lang (lit c) w \<longleftrightarrow> w = [c]"
  by (auto simp: lit_def rx_lang_Atom)

lemma lang_TimesD:
  "rx_lang (Times r s) w \<Longrightarrow> \<exists>u v. w = u @ v \<and> rx_lang r u \<and> rx_lang s v"
  by (simp add: rx_lang_Times)

lemma emailRegex_lang:
  "rx_lang emailRegex s \<longleftrightarrow>
     (\<exists>u d t. s = u @ [CHR ''@''] @ d @ [CHR ''.''] @ t
        \<and> (u \<noteq> [] \<and> (\<forall>c \<in> set u. not_space_at c))
        \<and> (d \<noteq> [] \<and> (\<forall>c \<in> set d. not_space_at c))
        \<and> (t \<noteq> [] \<and> (\<forall>c \<in> set t. not_space_at c)))"
  (is "?L \<longleftrightarrow> ?R")
proof
  assume ?L
  then obtain u r1 where 1: "s = u @ r1" "rx_lang (Plus (Atom not_space_at)) u"
      "rx_lang (Times (lit CHR ''@'') (Times (Plus (Atom not_space_at))
          (Times (lit CHR ''.'') (Plus (Atom not_space_at))))) r1"
    unfolding emailRegex_def by (blast dest: lang_TimesD)
  from 1(3) obtain a r2 where 2: "r1 = a @ r2" "rx_lang (lit CHR ''@'') a"
      "rx_lang (Times (Plus (Atom not_space_at))
          (Times (lit CHR ''.'') (Plus (Atom not_space_at)))) r2"
    by (blast dest: lang_TimesD)
  from 2(3) obtain d r3 where 3: "r2 = d @ r3" "rx_lang (Plus (Atom not_space_at)) d"
      "rx_lang (Times (lit CHR ''.'') (Plus (Atom not_space_at))) r3"
    by (blast dest: lang_TimesD)
  from 3(3) obtain b t where 4: "r3 = b @ t" "rx_lang (lit CHR ''.'') b"
      "rx_lang (Plus (Atom not_space_at)) t"
    by (blast dest: lang_TimesD)
  from 1(1) 2(1,2) 3(1) 4(1,2) have "s = u @ [CHR ''@''] @ d @ [CHR ''.''] @ t"
    by (simp add: lit_iff)
  with 1(2) 3(2) 4(3) show ?R
    unfolding Plus_Atom_iff by blast
next
  assume ?R
  then obtain u d t where s: "s = u @ [CHR ''@''] @ d @ [CHR ''.''] @ t"
    and u: "rx_lang (Plus (Atom not_space_at)) u"
    and d: "rx_lang (Plus (Atom not_space_at)) d"
    and t: "rx_lang (Plus (Atom not_space_at)) t"
    unfolding Plus_Atom_iff by blast
  have at: "rx_lang (lit CHR ''@'') [CHR ''@'']" and dot: "rx_lang (lit CHR ''.'') [CHR ''.'']"
    by (simp_all add: lit_iff)
  from u lang_Times [OF at lang_Times [OF d lang_Times [OF dot t]]]
  have "rx_lang emailRegex (u @ [CHR ''@''] @ d @ [CHR ''.''] @ t)"
    unfolding emailRegex_def by (rule lang_Times)
  with s show ?L by simp
qed

lemma emailRegex_iff: "rx_test emailRegex s \<longleftrightarrow> email_pattern s"
proof -
  have "email_pattern s \<longleftrightarrow>
     (\<exists>u d t. s = u @ [CHR ''@''] @ d @ [CHR ''.''] @ t
        \<and> (u \<noteq> [] \<and> (\<forall>c \<in> set u. not_space_at c))
        \<and> (d \<noteq> [] \<and> (\<forall>c \<in> set d. not_space_at c))
        \<and> (t \<noteq> [] \<and> (\<forall>c \<in> set t. not_space_at c)))"
    unfolding email_pattern_def not_space_at_def set_append ball_Un
    by (intro iff_exI) auto
  then show ?thesis
    by (simp add: rx_test_iff emailRegex_lang)
qed

text \<open>
  C9. \<open>Email.create\<close> trims and lower-cases its input before it validates it, so the
  input \<open>User@Example.COM\<close> between spaces gives the value \<open>user@example.com\<close>. It fails
  with a ValidationError exactly when the normalized string is empty or does not match the
  pattern (a local part, an \<open>@\<close>, and at least one dot-separated label after the
  \<open>@\<close>), and returns the normalized string otherwise. The inputs \<open>no-at-sign\<close>,
  \<open>user@\<close>, \<open>@example.com\<close> and \<open>user@example\<close> each fail with a ValidationError.
\<close>

theorem Email_create_spec:
  "Email_create ''  User@Example.COM  '' = Inr (Email ''user@example.com'')
   \<and> (\<exists>e. Email_create v = Inl e \<and> kind_of e = Some KValidation)
       = (toLowerCase (trim v) = [] \<or> \<not> email_pattern (toLowerCase (trim v)))
   \<and> (Email_create v = Inr (Email (toLowerCase (trim v))))
       = (toLowerCase (trim v) \<noteq> [] \<and> email_pattern (toLowerCase (trim v)))
   \<and> (\<exists>e. Email_create v = Inl e)
       = (toLowerCase (trim v) = [] \<or> \<not> email_pattern (toLowerCase (trim v)))
   \<and> Email_create ''no-at-sign''
       = Inl (ValidationError ''Email''
                [Failure ''value'' ''Invalid email format'' (Some (VStr ''no-at-sign''))])
   \<and> Email_create ''user@''
       = Inl (ValidationError ''Email''
                [Failure ''value'' ''Invalid email format'' (Some (VStr ''user@''))])
   \<and> Email_create ''@example.com''
       = Inl (ValidationError ''Email''
                [Failure ''value'' ''Invalid email format'' (Some (VStr ''@example.com''))])
   \<and> Email_create ''user@example''
       = Inl (ValidationError ''Email''
                [Failure ''value'' ''Invalid email format'' (Some (VStr ''user@example''))])"
proof -
  have example: "Email_create ''  User@Example.COM  '' = Inr (Email ''user@example.com'')"
    by code_simp
  have fails: "(\<exists>e. Email_create v = Inl e \<and> kind_of e = Some KValidation)
       = (toLowerCase (trim v) = [] \<or> \<not> email_pattern (toLowerCase (trim v)))"
    by (simp add: Email_create_def Let_def emailRegex_iff ValidationError_single_def)
  have succeeds: "(Email_create v = Inr (Email (toLowerCase (trim v))))
       = (toLowerCase (trim v) \<noteq> [] \<and> email_pattern (toLowerCase (trim v)))"
    by (simp add: Email_create_def Let_def emailRegex_iff)
  have either: "(\<exists>e. Email_create v = Inl e)
       = (toLowerCase (trim v) = [] \<or> \<not> email_pattern (toLowerCase (trim v)))"
    by (simp add: Email_create_def Let_def emailRegex_iff)
  have bad1: "Email_create ''no-at-sign''
       = Inl (ValidationError ''Email''
                [Failure ''value'' ''Invalid email format'' (Some (VStr ''no-at-sign''))])"
    by code_simp
  have bad2: "Email_create ''user@''
       = Inl (ValidationError ''Email''
                [Failure ''value'' ''Invalid email format'' (Some (VStr ''user@''))])"
    by code_simp
  have bad3: "Email_create ''@example.com''
       = Inl (ValidationError ''Email''
                [Failure ''value'' ''Invalid email format'' (Some (VStr ''@example.com''))])"
    by code_simp
  have bad4: "Email_create ''user@example''
       = Inl (ValidationError ''Email''
                [Failure ''value'' ''Invalid email format'' (Some (VStr ''user@example''))])"
    by code_simp
  from example fails succeeds either bad1 bad2 bad3 bad4 show ?thesis
    by blast
qed

text \<open>
  At the input of the example the normalized string matches the pattern; at \<open>user@\<close> it
  does not, and at a string of spaces it is empty.
\<close>

theorem Email_create_spec_witness:
  "toLowerCase (trim ''  User@Example.COM  '') = ''user@example.com''
   \<and> email_pattern ''user@example.com''
   \<and> toLowerCase (trim ''user@'') = ''user@''
   \<and> \<not> email_pattern ''user@''
   \<and> toLowerCase (trim ''   '') = []
   \<and> (\<exists>e. Email_create ''   '' = Inl e \<and> kind_of e = Some KValidation)"
proof -
  have n1: "toLowerCase (trim ''  User@Example.COM  '') = ''user@example.com''"
    by code_simp
  have n2: "toLowerCase (trim ''user@'') = ''user@''"
    by code_simp
  have n3: "toLowerCase (trim ''   '') = []"
    by code_simp
  have r1: "Email_create ''  User@Example.COM  '' = Inr (Email ''user@example.com'')"
    by code_simp
  have r2: "Email_create ''user@''
      = Inl (ValidationError ''Email''
               [Failure ''value'' ''Invalid email format'' (Some (VStr ''user@''))])"
    by code_simp
  from Email_create_spec [of "''  User@Example.COM  ''"] r1
  have a: "email_pattern ''user@example.com''"
    unfolding n1 by simp
  from Email_create_spec [of "''user@''"] r2
  have b: "\<not> email_pattern ''user@''"
    unfolding n2 by simp
  from Email_create_spec [of "''   ''"]
  have c: "\<exists>e. Email_create ''   '' = Inl e \<and> kind_of e = Some KValidation"
    unfolding n3 by simp
  from n1 a n2 b n3 c show ?thesis
    by blast
qed

section \<open>What the copies and the mutators do preserve\<close>

subsection \<open>The arrays are copied\<close>

text \<open>
  The getter and \<open>create\<close> return and keep a new array: a \<open>push\<close> on the array the
  caller holds does not reach the order.
\<close>

lemma Order_items_is_new_array:
  assumes "items_ref ord < next_arr h" "Order_items ord h = (a, h')"
  shows "a \<noteq> items_ref ord" "arrs h' a = arrs h (items_ref ord)"
    "items_view ord h' = items_view ord h"
    "items_view ord (array_push a x h') = items_view ord h"
  using assms
  by (auto simp: Order_items_def array_copy_def items_view_def array_push_def)

lemma Order_create_is_new_array:
  assumes "its < next_arr h" "Order_create uuid now em its h = (Inr ord, h')"
  shows "items_ref ord \<noteq> its"
    "items_view ord (array_push its x h') = items_view ord h'"
  using assms
  by (auto simp: Order_create_def array_copy_def items_view_def array_push_def Let_def
           split: if_splits sum.splits)

subsection \<open>The mutators keep the item list non-empty and the products distinct\<close>

text \<open>
  After \<open>create\<close> and any sequence of successful calls the item list is not empty, and
  its products are distinct when those of the list passed to \<open>create\<close> were.
\<close>

lemma status_call_keeps_items:
  "confirm ord = (r, ord') \<Longrightarrow> items_ref ord' = items_ref ord"
  "ship ord = (r, ord') \<Longrightarrow> items_ref ord' = items_ref ord"
  "deliver ord = (r, ord') \<Longrightarrow> items_ref ord' = items_ref ord"
  "cancel ord = (r, ord') \<Longrightarrow> items_ref ord' = items_ref ord"
  by (auto simp: confirm_def ship_def deliver_def cancel_def split: if_splits)

lemma addItem_productIds:
  assumes "addItem item ord h = (Inr u, ord', h')"
  shows "ord' = ord"
    and "map productId (items_view ord' h') = map productId (items_view ord h)
         \<or> (productId (objs h item) \<notin> set (map productId (items_view ord h))
            \<and> map productId (items_view ord' h')
                = map productId (items_view ord h) @ [productId (objs h item)])"
proof -
  let ?its = "arrs h (items_ref ord)"
  let ?p = "\<lambda>i. productId (objs h i) = productId (objs h item)"
  from assms have pending: "status ord = PENDING"
    by (auto simp: addItem_def split: if_splits)
  from assms show "ord' = ord"
    by (auto simp: addItem_def Let_def split: if_splits)
  show "map productId (items_view ord' h') = map productId (items_view ord h)
         \<or> (productId (objs h item) \<notin> set (map productId (items_view ord h))
            \<and> map productId (items_view ord' h')
                = map productId (items_view ord h) @ [productId (objs h item)])"
  proof (cases "0 \<le> findIndex ?p ?its")
    case True
    with assms pending have "ord' = ord"
        "h' = set_quantity (?its ! nat (findIndex ?p ?its))
                (num_add (quantity (objs h (?its ! nat (findIndex ?p ?its))))
                   (quantity (objs h item))) h"
      by (auto simp: addItem_def Let_def)
    then have "map productId (items_view ord' h') = map productId (items_view ord h)"
      by (simp add: items_view_def set_quantity_def)
    then show ?thesis ..
  next
    case False
    with assms pending have eq: "ord' = ord" "h' = array_push (items_ref ord) item h"
      by (auto simp: addItem_def Let_def)
    from False have "findIndex ?p ?its < 0" by simp
    then have "\<forall>i \<in> set ?its. \<not> ?p i"
      by (simp add: findIndex_none)
    then have "productId (objs h item) \<notin> set (map productId (items_view ord h))"
      by (auto simp: items_view_def)
    moreover from eq have "map productId (items_view ord' h')
        = map productId (items_view ord h) @ [productId (objs h item)]"
      by (simp add: items_view_def array_push_def)
    ultimately show ?thesis by blast
  qed
qed

lemma exec_call_invariant:
  assumes "exec_call c (ord, h) = (Inr u, ord', h')"
    and "items_view ord h \<noteq> []"
  shows "items_view ord' h' \<noteq> []"
    and "distinct (map productId (items_view ord h))
         \<Longrightarrow> distinct (map productId (items_view ord' h'))"
proof -
  have "items_view ord' h' \<noteq> []
      \<and> (distinct (map productId (items_view ord h))
         \<longrightarrow> distinct (map productId (items_view ord' h')))"
  proof (cases c)
    case (CallAddItem item)
    with assms(1) have run: "addItem item ord h = (Inr u, ord', h')"
      by simp
    from addItem_productIds(2) [OF run] assms(2) show ?thesis
      by (metis Nil_is_append_conv Nil_is_map_conv distinct.simps(2) distinct1_rotate
          rotate1.simps(2) set_map)
  qed (use assms status_call_keeps_items in
         \<open>auto simp: items_view_def split: prod.splits\<close>)
  then show "items_view ord' h' \<noteq> []"
    and "distinct (map productId (items_view ord h))
         \<Longrightarrow> distinct (map productId (items_view ord' h'))"
    by simp_all
qed

lemma exec_calls_invariant:
  assumes "exec_calls cs (ord, h) = Some (ord', h')"
    and "items_view ord h \<noteq> []"
  shows "items_view ord' h' \<noteq> []
     \<and> (distinct (map productId (items_view ord h))
        \<longrightarrow> distinct (map productId (items_view ord' h')))"
  using assms
proof (induction cs arbitrary: ord h)
  case Nil
  then show ?case by simp
next
  case (Cons c cs)
  from Cons.prems(1) obtain u ord1 h1 where step: "exec_call c (ord, h) = (Inr u, ord1, h1)"
    and rest: "exec_calls cs (ord1, h1) = Some (ord', h')"
    by (auto split: prod.splits sum.splits)
  from exec_call_invariant [OF step Cons.prems(2)] Cons.IH [OF rest]
  show ?case by blast
qed

lemma Order_create_items:
  assumes "Order_create uuid now em its h = (Inr ord, h')"
  shows "items_view ord h' = map (objs h) (arrs h its)" "items_view ord h' \<noteq> []"
    "status ord = PENDING" "items_ref ord = next_arr h"
  using assms
  by (auto simp: Order_create_def array_copy_def items_view_def Let_def
           split: if_splits sum.splits)

lemma created_order_invariant:
  assumes "Order_create uuid now em its h = (Inr ord, h1)"
    and "exec_calls cs (ord, h1) = Some (ord', h')"
  shows "items_view ord' h' \<noteq> []"
    and "distinct (map productId (map (objs h) (arrs h its)))
         \<Longrightarrow> distinct (map productId (items_view ord' h'))"
  using exec_calls_invariant [OF assms(2) Order_create_items(2) [OF assms(1)]]
    Order_create_items(1) [OF assms(1)]
  by simp_all

subsection \<open>The kinds of the other errors\<close>

text \<open>
  Every error of the other factories, of \<open>calculateTotal\<close> and of the mutators is of one
  of the five kinds.
\<close>

lemma factories_kind:
  "Email_create v = Inl e \<Longrightarrow> kind_of e = Some KValidation"
  "OrderId_create v = Inl e \<Longrightarrow> kind_of e = Some KValidation"
  by (auto simp: Email_create_def OrderId_create_def ValidationError_single_def Let_def
           split: if_splits)

lemma mutators_kind:
  "confirm ord = (Inl e, ord') \<Longrightarrow> kind_of e = Some KInvalidState"
  "ship ord = (Inl e, ord') \<Longrightarrow> kind_of e = Some KInvalidState"
  "deliver ord = (Inl e, ord') \<Longrightarrow> kind_of e = Some KInvalidState"
  "cancel ord = (Inl e, ord') \<Longrightarrow> kind_of e = Some KInvalidState"
  "addItem item ord h = (Inl e, ord', h') \<Longrightarrow> kind_of e = Some KInvalidState"
  "activate c = (Inl e, c') \<Longrightarrow> kind_of e = Some KInvalidState"
  "deactivate c = (Inl e, c') \<Longrightarrow> kind_of e = Some KInvalidState"
  "updateName newName c = (Inl e, c') \<Longrightarrow> kind_of e = Some KValidation"
  by (auto simp: confirm_def ship_def deliver_def cancel_def addItem_def activate_def
        deactivate_def updateName_def ValidationError_single_def Let_def split: if_splits)

end
